theory Spec2Isabelle
  imports Main
begin

section \<open>JavaScript values used by the Google Calendar adapter\<close>

text \<open>
  The adapter is a set of pure conversion functions between the Google Calendar wire
  format and the provider-agnostic domain model. Strings are modelled as HOL strings
  (a character is a code unit in the range 0..255). An optional property
  \<open>p?: T\<close> is a \<open>T option\<close>, with \<open>None\<close> for \<open>undefined\<close> or an absent key.
  JavaScript truthiness is written out: an optional string is truthy when it is
  defined and not empty, an optional boolean when it is \<open>true\<close>, an optional array
  length when the array is defined and not empty.
\<close>

definition truthy :: "string option \<Rightarrow> bool" where
  "truthy s = (case s of None \<Rightarrow> False | Some v \<Rightarrow> v \<noteq> [])"

definition truthyBool :: "bool option \<Rightarrow> bool" where
  "truthyBool b = (case b of None \<Rightarrow> False | Some v \<Rightarrow> v)"

text \<open>\<open>...(x && { k: x })\<close>: the key is written only for a truthy string.\<close>

definition spreadIfTruthy :: "string option \<Rightarrow> string option" where
  "spreadIfTruthy s = (if truthy s then s else None)"

text \<open>\<open>a || b\<close> on an optional string and a string.\<close>

definition orElse :: "string option \<Rightarrow> string \<Rightarrow> string" where
  "orElse a b = (case a of None \<Rightarrow> b | Some v \<Rightarrow> if v = [] then b else v)"

text \<open>\<open>String.prototype.startsWith\<close> and \<open>String.prototype.includes\<close>.\<close>

fun startsWith :: "string \<Rightarrow> string \<Rightarrow> bool" where
  "startsWith s [] = True"
| "startsWith [] (p # ps) = False"
| "startsWith (c # cs) (p # ps) = (c = p \<and> startsWith cs ps)"

fun includesStr :: "string \<Rightarrow> string \<Rightarrow> bool" where
  "includesStr [] sub = (sub = [])"
| "includesStr (c # cs) sub = (startsWith (c # cs) sub \<or> includesStr cs sub)"

text \<open>
  \<open>String.prototype.toLowerCase\<close> on code units 0..255: the ASCII capitals and the
  Latin-1 capitals (U+00C0..U+00DE without the multiplication sign U+00D7) move up by 32.
\<close>

definition toLowerChar :: "char \<Rightarrow> char" where
  "toLowerChar c =
     (let n = (of_char c :: nat)
      in if (65 \<le> n \<and> n \<le> 90) \<or> (192 \<le> n \<and> n \<le> 222 \<and> n \<noteq> 215)
         then char_of (n + 32) else c)"

definition toLowerCase :: "string \<Rightarrow> string" where
  "toLowerCase s = map toLowerChar s"

text \<open>
  What a call can throw: the one explicit \<open>throw new Error(msg)\<close> of the module, a
  \<open>TypeError\<close> of the runtime (destructuring \<open>undefined\<close>, a non-string handed to
  Temporal) and a \<open>RangeError\<close> of Temporal (a string it cannot parse, an unknown time
  zone).
\<close>

datatype error = Error string | TypeError | RangeError

section \<open>Attendee status\<close>

text \<open>
  \<open>AttendeeStatus\<close> is the union \<open>"accepted" | "tentative" | "declined" | "unknown"\<close>
  (interfaces/calendars.ts); at run time a status is a string and both mappings
  compare it with \<open>===\<close> and otherwise return it unchanged.
\<close>

definition attendeeStatuses :: "string list" where
  "attendeeStatuses = [''accepted'', ''tentative'', ''declined'', ''unknown'']"

text \<open>
  Modelled from the spec: the declaration of
  \<open>GoogleCalendarEventAttendeeResponseStatus\<close> (./interfaces) is missing; the provider's
  statuses are the domain's with \<open>"needsAction"\<close> in the place of \<open>"unknown"\<close>.
\<close>

definition googleResponseStatuses :: "string list" where
  "googleResponseStatuses = [''needsAction'', ''declined'', ''tentative'', ''accepted'']"

definition toGoogleCalendarAttendeeResponseStatus :: "string \<Rightarrow> string" where
  "toGoogleCalendarAttendeeResponseStatus status =
     (if status = ''unknown'' then ''needsAction'' else status)"

definition parseGoogleCalendarAttendeeStatus :: "string \<Rightarrow> string" where
  "parseGoogleCalendarAttendeeStatus status =
     (if status = ''needsAction'' then ''unknown'' else status)"

section \<open>Conference data\<close>

text \<open>
  Modelled from the spec: the declarations of \<open>Conference\<close> and
  \<open>ConferenceEntryPoint\<close> (interfaces/events.ts) are missing. An entry point has a
  join URL \<open>{value, label?}\<close> and optional \<open>meetingCode\<close>, \<open>accessCode\<close> and
  \<open>password\<close>; a conference has optional \<open>id\<close>, \<open>conferenceId\<close> and \<open>name\<close>, at
  most one video and one sip entry point, a list of phone entry points and the
  free-form \<open>extra\<close> values the outbound mapper reads, of TypeScript's type
  \<open>unknown\<close>.
\<close>

typedecl unknown

record JoinUrl =
  ju_label :: "string option"
  ju_value :: string

record ConferenceEntryPoint =
  cep_joinUrl :: JoinUrl
  cep_meetingCode :: "string option"
  cep_accessCode :: "string option"
  cep_password :: "string option"

record Conference =
  c_id :: "string option"
  c_conferenceId :: "string option"
  c_name :: "string option"
  c_video :: "ConferenceEntryPoint option"
  c_sip :: "ConferenceEntryPoint option"
  c_phone :: "ConferenceEntryPoint list option"
  c_extra :: "(string \<times> unknown) list option"

text \<open>
  Modelled from the spec: the declaration of \<open>GoogleCalendarEventConferenceData\<close>
  (./interfaces) is missing. The properties are those the module reads and writes:
  entry points, the solution and its key, the conference id and the add-on parameters.
\<close>

record GoogleEntryPoint =
  ep_entryPointType :: "string option"
  ep_uri :: "string option"
  ep_label :: "string option"
  ep_meetingCode :: "string option"
  ep_accessCode :: "string option"
  ep_password :: "string option"
  ep_passcode :: "string option"
  ep_pin :: "string option"

record GoogleSolutionKey =
  key_type :: "string option"

record GoogleConferenceSolution =
  cs_name :: "string option"
  cs_key :: "GoogleSolutionKey option"

text \<open>
  \<open>cd_parameters\<close> is \<open>parameters.addOnParameters.parameters\<close>, the only path the
  module writes under \<open>parameters\<close>.
\<close>

record GoogleCalendarEventConferenceData =
  cd_conferenceId :: "string option"
  cd_conferenceSolution :: "GoogleConferenceSolution option"
  cd_entryPoints :: "GoogleEntryPoint list option"
  cd_parameters :: "(string \<times> string) list option"

text \<open>
  \<open>toJoinUrl\<close>: \<open>new URL(joinUrl)\<close> is the platform's parser, a parameter giving the
  host name and the path name, or \<open>None\<close> where the constructor throws.
\<close>

definition toJoinUrl :: "(string \<Rightarrow> (string \<times> string) option) \<Rightarrow> string \<Rightarrow> string" where
  "toJoinUrl newURL joinUrl =
     (case newURL joinUrl of
        Some (hostname, pathname) \<Rightarrow> hostname @ pathname
      | None \<Rightarrow> joinUrl)"

definition toVideoEntryPoint ::
  "(string \<Rightarrow> (string \<times> string) option) \<Rightarrow> ConferenceEntryPoint \<Rightarrow> GoogleEntryPoint" where
  "toVideoEntryPoint newURL video =
     \<lparr>ep_entryPointType = Some ''video'',
      ep_uri = Some (ju_value (cep_joinUrl video)),
      ep_label = Some (orElse (ju_label (cep_joinUrl video))
                         (toJoinUrl newURL (ju_value (cep_joinUrl video)))),
      ep_meetingCode = spreadIfTruthy (cep_meetingCode video),
      ep_accessCode = spreadIfTruthy (cep_meetingCode video),
      ep_password = spreadIfTruthy (cep_password video),
      ep_passcode = spreadIfTruthy (cep_password video),
      ep_pin = None\<rparr>"

definition toSipEntryPoint :: "ConferenceEntryPoint \<Rightarrow> GoogleEntryPoint" where
  "toSipEntryPoint sip =
     \<lparr>ep_entryPointType = Some ''sip'',
      ep_uri = Some (ju_value (cep_joinUrl sip)),
      ep_label = ju_label (cep_joinUrl sip),
      ep_meetingCode = spreadIfTruthy (cep_meetingCode sip),
      ep_accessCode = spreadIfTruthy (cep_meetingCode sip),
      ep_password = spreadIfTruthy (cep_password sip),
      ep_passcode = spreadIfTruthy (cep_password sip),
      ep_pin = None\<rparr>"

definition toPhoneUri :: "string \<Rightarrow> string" where
  "toPhoneUri v = (if startsWith v ''tel:'' then v else ''tel:'' @ v)"

definition toPhoneEntryPoint :: "ConferenceEntryPoint \<Rightarrow> GoogleEntryPoint" where
  "toPhoneEntryPoint phoneEntry =
     \<lparr>ep_entryPointType = Some ''phone'',
      ep_uri = Some (toPhoneUri (ju_value (cep_joinUrl phoneEntry))),
      ep_label = Some (orElse (ju_label (cep_joinUrl phoneEntry))
                         (ju_value (cep_joinUrl phoneEntry))),
      ep_meetingCode = None,
      ep_accessCode = spreadIfTruthy (cep_accessCode phoneEntry),
      ep_password = None,
      ep_passcode = None,
      ep_pin = spreadIfTruthy (cep_accessCode phoneEntry)\<rparr>"

text \<open>
  The three pushes onto \<open>entryPoints\<close>, in the source's order. The join URL is a
  required property of an entry point in the domain type, so the optional chaining
  \<open>conference.video?.joinUrl?.value\<close> tests the entry point and the value.
\<close>

definition outboundEntryPoints ::
  "(string \<Rightarrow> (string \<times> string) option) \<Rightarrow> Conference \<Rightarrow> GoogleEntryPoint list" where
  "outboundEntryPoints newURL conference =
     (case c_video conference of
        None \<Rightarrow> []
      | Some video \<Rightarrow>
          if ju_value (cep_joinUrl video) \<noteq> [] then [toVideoEntryPoint newURL video] else [])
     @ (case c_sip conference of
        None \<Rightarrow> []
      | Some sip \<Rightarrow>
          if ju_value (cep_joinUrl sip) \<noteq> [] then [toSipEntryPoint sip] else [])
     @ (case c_phone conference of
        None \<Rightarrow> []
      | Some phone \<Rightarrow> if phone \<noteq> [] then map toPhoneEntryPoint phone else [])"

definition conferenceSolutionType :: "Conference \<Rightarrow> string" where
  "conferenceSolutionType conference =
     (if truthy (c_name conference)
      then (case c_name conference of
              Some name \<Rightarrow>
                if includesStr (toLowerCase name) ''google'' then ''hangoutsMeet'' else ''addOn''
            | None \<Rightarrow> ''hangoutsMeet'')
      else ''hangoutsMeet'')"

text \<open>
  \<open>String\<close> is JavaScript's conversion of an \<open>unknown\<close> value, a parameter.
\<close>

definition toGoogleCalendarConferenceData ::
  "(string \<Rightarrow> (string \<times> string) option) \<Rightarrow> (unknown \<Rightarrow> string) \<Rightarrow> Conference
     \<Rightarrow> GoogleCalendarEventConferenceData" where
  "toGoogleCalendarConferenceData newURL String conference =
     (let entryPoints = outboundEntryPoints newURL conference
      in \<lparr>cd_conferenceId = c_conferenceId conference,
          cd_conferenceSolution =
            Some \<lparr>cs_name = Some (case c_name conference of
                                     Some name \<Rightarrow> name | None \<Rightarrow> ''Google Meet''),
                  cs_key = Some \<lparr>key_type = Some (conferenceSolutionType conference)\<rparr>\<rparr>,
          cd_entryPoints = (if length entryPoints > 0 then Some entryPoints else None),
          cd_parameters =
            (case c_extra conference of
               None \<Rightarrow> None
             | Some extra \<Rightarrow> Some (map (\<lambda>(key, v). (key, String v)) extra))\<rparr>)"

section \<open>The provider's event payload\<close>

text \<open>
  Modelled from the spec: the declarations of \<open>GoogleCalendarEvent\<close>,
  \<open>GoogleCalendarEventAttendee\<close>, \<open>GoogleCalendarDate\<close> and
  \<open>GoogleCalendarDateTime\<close> (./interfaces) are missing. Every property the module
  reads is optional in the payload; \<open>start\<close> and \<open>end\<close> hold a \<open>date\<close> or a
  \<open>dateTime\<close> with an optional \<open>timeZone\<close>.
\<close>

record GoogleCalendarDate =
  gd_date :: "string option"
  gd_dateTime :: "string option"
  gd_timeZone :: "string option"

record GoogleCalendarEventAttendee =
  at_id :: "string option"
  at_email :: "string option"
  at_displayName :: "string option"
  at_responseStatus :: "string option"
  at_comment :: "string option"
  at_additionalGuests :: "int option"
  at_self :: "bool option"
  at_resource :: "bool option"
  at_optional :: "bool option"

record GoogleEventSource =
  src_url :: "string option"

record GoogleEventAttachment =
  att_fileUrl :: "string option"

record GoogleEventGadget =
  gadget_link :: "string option"

record GoogleCalendarEvent =
  ge_id :: "string option"
  ge_summary :: "string option"
  ge_description :: "string option"
  ge_start :: "GoogleCalendarDate option"
  ge_end :: "GoogleCalendarDate option"
  ge_location :: "string option"
  ge_status :: "string option"
  ge_attendees :: "GoogleCalendarEventAttendee list option"
  ge_htmlLink :: "string option"
  ge_conferenceData :: "GoogleCalendarEventConferenceData option"
  ge_hangoutLink :: "string option"
  ge_source :: "GoogleEventSource option"
  ge_attachments :: "GoogleEventAttachment list option"
  ge_gadget :: "GoogleEventGadget option"

section \<open>Inbound conference data: the fallback scan\<close>

text \<open>
  Modelled from the spec: the result type of the meeting-link detector is missing; it
  is the structured result \<open>{id, name, joinUrl}\<close>. The detector itself,
  \<open>detectMeetingLink\<close> of the package @analog/meeting-links, is a parameter of the
  model: for a URL it gives the service or nothing.
\<close>

record MeetingService =
  ms_id :: string
  ms_name :: string
  ms_joinUrl :: string

type_synonym detector = "string \<Rightarrow> MeetingService option"

text \<open>
  The class \<open>[^\s<>"'{}|\\^`[\]]\<close> of the URL pattern, on code units 0..255: not white
  space (TAB, LF, VT, FF, CR, SP, NBSP) and none of the twelve delimiters.
\<close>

definition isUrlChar :: "char \<Rightarrow> bool" where
  "isUrlChar c =
     ((of_char c :: nat) \<notin> set [9, 10, 11, 12, 13, 32, 160,
                                  60, 62, 34, 39, 123, 125, 124, 92, 94, 96, 91, 93])"

text \<open>
  \<open>https?:\/\/\<close> under the flag \<open>i\<close>, at the head of the text: the length of the
  scheme matched, 8 with the optional \<open>s\<close> and 7 without.
\<close>

definition matchScheme :: "string \<Rightarrow> nat option" where
  "matchScheme s =
     (if toLowerCase (take 4 s) = ''http''
      then (if toLowerCase (take 1 (drop 4 s)) = ''s'' \<and> take 3 (drop 5 s) = ''://''
            then Some 8
            else if take 3 (drop 4 s) = ''://'' then Some 7 else None)
      else None)"

text \<open>
  One match of the pattern at the head of the text: the scheme and the longest run of
  class characters, which must not be empty; the result is the match and the text left.
\<close>

definition matchUrlAt :: "string \<Rightarrow> (string \<times> string) option" where
  "matchUrlAt s =
     (case matchScheme s of
        None \<Rightarrow> None
      | Some n \<Rightarrow>
          (let body = takeWhile isUrlChar (drop n s)
           in if body = [] then None
              else Some (take n s @ body, drop (n + length body) s)))"

text \<open>
  \<open>text.match(urlRegex) || []\<close> with the flag \<open>g\<close>: all matches from left to right,
  the search going on after each match, and one character further where none starts.
\<close>

function extractUrls :: "string \<Rightarrow> string list" where
  "extractUrls s =
     (if s = [] then []
      else (case matchUrlAt s of
              None \<Rightarrow> extractUrls (tl s)
            | Some (m, rest) \<Rightarrow> m # extractUrls rest))"
  by pat_completeness auto
termination
proof (relation "measure length")
  show "wf (measure length)" by simp
next
  fix s :: string
  assume "s \<noteq> []"
  then show "(tl s, s) \<in> measure length" by (cases s) simp_all
next
  fix s :: string and x2 :: "string \<times> string" and m rest :: string
  assume ne: "s \<noteq> []" and mt: "matchUrlAt s = Some x2" and x2: "(m, rest) = x2"
  from mt x2 obtain n where "rest = drop (n + length (takeWhile isUrlChar (drop n s))) s"
    and "matchScheme s = Some n"
    by (auto simp: matchUrlAt_def Let_def split: option.splits if_splits)
  moreover from this have "0 < n"
    by (auto simp: matchScheme_def split: if_splits)
  ultimately show "(rest, s) \<in> measure length"
    using ne by (cases s) auto
qed

declare extractUrls.simps [simp del]

definition checkMeetingLink :: "detector \<Rightarrow> string \<Rightarrow> Conference option" where
  "checkMeetingLink detectMeetingLink url =
     (case detectMeetingLink url of
        Some service \<Rightarrow>
          Some \<lparr>c_id = Some (ms_id service),
                c_conferenceId = None,
                c_name = Some (ms_name service),
                c_video = Some \<lparr>cep_joinUrl = \<lparr>ju_label = None, ju_value = ms_joinUrl service\<rparr>,
                                cep_meetingCode = Some (ms_id service),
                                cep_accessCode = None,
                                cep_password = None\<rparr>,
                c_sip = None, c_phone = None, c_extra = None\<rparr>
      | None \<Rightarrow> None)"

text \<open>\<open>for (const url of urls)\<close> with its \<open>return\<close> on the first service found.\<close>

fun checkUrls :: "detector \<Rightarrow> string list \<Rightarrow> Conference option" where
  "checkUrls detectMeetingLink [] = None"
| "checkUrls detectMeetingLink (url # urls) =
     (case checkMeetingLink detectMeetingLink url of
        Some service \<Rightarrow> Some service
      | None \<Rightarrow> checkUrls detectMeetingLink urls)"

text \<open>\<open>if (link) { ... checkMeetingLink(link) ... }\<close> on an optional string.\<close>

definition checkLink :: "detector \<Rightarrow> string option \<Rightarrow> Conference option" where
  "checkLink detectMeetingLink link =
     (case link of
        None \<Rightarrow> None
      | Some url \<Rightarrow> if url = [] then None else checkMeetingLink detectMeetingLink url)"

text \<open>\<open>if (text) { ... extractUrls(text) ... }\<close> on an optional text field.\<close>

definition checkText :: "detector \<Rightarrow> string option \<Rightarrow> Conference option" where
  "checkText detectMeetingLink field =
     (case field of
        None \<Rightarrow> None
      | Some t \<Rightarrow> if t = [] then None else checkUrls detectMeetingLink (extractUrls t))"

fun checkAttachments :: "detector \<Rightarrow> GoogleEventAttachment list \<Rightarrow> Conference option" where
  "checkAttachments detectMeetingLink [] = None"
| "checkAttachments detectMeetingLink (attachment # attachments) =
     (case checkLink detectMeetingLink (att_fileUrl attachment) of
        Some service \<Rightarrow> Some service
      | None \<Rightarrow> checkAttachments detectMeetingLink attachments)"

text \<open>The six steps of the scan; each \<open>Some\<close> branch is a \<open>return service\<close>.\<close>

definition parseGoogleCalendarConferenceFallback ::
  "detector \<Rightarrow> GoogleCalendarEvent \<Rightarrow> Conference option" where
  "parseGoogleCalendarConferenceFallback detectMeetingLink event =
     (case checkLink detectMeetingLink (ge_hangoutLink event) of
        Some service \<Rightarrow> Some service
      | None \<Rightarrow>
     (case checkText detectMeetingLink (ge_description event) of
        Some service \<Rightarrow> Some service
      | None \<Rightarrow>
     (case checkText detectMeetingLink (ge_location event) of
        Some service \<Rightarrow> Some service
      | None \<Rightarrow>
     (case (case ge_source event of
              None \<Rightarrow> None
            | Some source \<Rightarrow> checkLink detectMeetingLink (src_url source)) of
        Some service \<Rightarrow> Some service
      | None \<Rightarrow>
     (case (case ge_attachments event of
              None \<Rightarrow> None
            | Some attachments \<Rightarrow> checkAttachments detectMeetingLink attachments) of
        Some service \<Rightarrow> Some service
      | None \<Rightarrow>
     (case (case ge_gadget event of
              None \<Rightarrow> None
            | Some gadget \<Rightarrow> checkLink detectMeetingLink (gadget_link gadget)) of
        Some service \<Rightarrow> Some service
      | None \<Rightarrow> None))))))"

section \<open>Inbound conference data: structured entry points\<close>

definition toConferenceEntryPoint :: "GoogleEntryPoint \<Rightarrow> string \<Rightarrow> ConferenceEntryPoint" where
  "toConferenceEntryPoint entryPoint uri =
     \<lparr>cep_joinUrl = \<lparr>ju_label = ep_label entryPoint, ju_value = uri\<rparr>,
      cep_meetingCode = ep_meetingCode entryPoint,
      cep_accessCode = ep_accessCode entryPoint,
      cep_password = ep_password entryPoint\<rparr>"

text \<open>\<open>...(e && e.uri && { k: {...} })\<close>: the entry is written for a truthy URI only.\<close>

definition parseSingleEntryPoint :: "GoogleEntryPoint option \<Rightarrow> ConferenceEntryPoint option" where
  "parseSingleEntryPoint found =
     (case found of
        None \<Rightarrow> None
      | Some entryPoint \<Rightarrow>
          (case ep_uri entryPoint of
             None \<Rightarrow> None
           | Some uri \<Rightarrow> if uri = [] then None else Some (toConferenceEntryPoint entryPoint uri)))"

text \<open>
  The phone entry points kept by the filter have a truthy URI, which \<open>entryPoint.uri!\<close>
  reads; an entry without one never reaches the map.
\<close>

definition parsePhoneEntryPoint :: "GoogleEntryPoint \<Rightarrow> ConferenceEntryPoint" where
  "parsePhoneEntryPoint entryPoint =
     toConferenceEntryPoint entryPoint (case ep_uri entryPoint of Some uri \<Rightarrow> uri | None \<Rightarrow> [])"

definition parseStructuredConferenceData ::
  "detector \<Rightarrow> GoogleCalendarEventConferenceData \<Rightarrow> GoogleEntryPoint list \<Rightarrow> Conference" where
  "parseStructuredConferenceData detectMeetingLink conferenceData entryPoints =
     (let videoEntryPoint = find (\<lambda>e. ep_entryPointType e = Some ''video'') entryPoints;
          sipEntryPoint = find (\<lambda>e. ep_entryPointType e = Some ''sip'') entryPoints;
          phoneEntryPoints =
            filter (\<lambda>e. ep_entryPointType e = Some ''phone'' \<and> truthy (ep_uri e)) entryPoints
      in \<lparr>c_id =
            (case videoEntryPoint of
               None \<Rightarrow> None
             | Some v \<Rightarrow>
                 (case ep_uri v of
                    None \<Rightarrow> None
                  | Some uri \<Rightarrow>
                      if uri = [] then None else map_option ms_id (detectMeetingLink uri))),
          c_conferenceId = cd_conferenceId conferenceData,
          c_name =
            (case cd_conferenceSolution conferenceData of
               None \<Rightarrow> None
             | Some solution \<Rightarrow> cs_name solution),
          c_video = parseSingleEntryPoint videoEntryPoint,
          c_sip = parseSingleEntryPoint sipEntryPoint,
          c_phone =
            (if length phoneEntryPoints > 0
             then Some (map parsePhoneEntryPoint phoneEntryPoints) else None),
          c_extra = None\<rparr>)"

text \<open>
  \<open>!event.conferenceData?.entryPoints?.length\<close> sends an event without conference
  data, without entry points or with an empty list of them to the fallback scan. The
  debug print of the source has no part in the result.
\<close>

definition parseGoogleCalendarConferenceData ::
  "detector \<Rightarrow> GoogleCalendarEvent \<Rightarrow> Conference option" where
  "parseGoogleCalendarConferenceData detectMeetingLink event =
     (case ge_conferenceData event of
        None \<Rightarrow> parseGoogleCalendarConferenceFallback detectMeetingLink event
      | Some conferenceData \<Rightarrow>
          (case cd_entryPoints conferenceData of
             None \<Rightarrow> parseGoogleCalendarConferenceFallback detectMeetingLink event
           | Some entryPoints \<Rightarrow>
               if entryPoints = []
               then parseGoogleCalendarConferenceFallback detectMeetingLink event
               else Some (parseStructuredConferenceData detectMeetingLink
                            conferenceData entryPoints)))"

section \<open>Dates and times\<close>

text \<open>
  Temporal (temporal-polyfill) is a library outside the module: its parsers and
  printers are the fields of a record the model takes as a parameter. A parser gives
  \<open>None\<close> where the library throws. \<open>ZonedDateTime_toString\<close> is \<open>toString\<close> with
  the options \<open>{ timeZoneName: "never", offset: "auto" }\<close>.
\<close>

record ('pd, 'ins, 'zdt) TemporalLib =
  PlainDate_from :: "string \<Rightarrow> 'pd option"
  Instant_from :: "string \<Rightarrow> 'ins option"
  toZonedDateTimeISO :: "'ins \<Rightarrow> string \<Rightarrow> 'zdt option"
  PlainDate_toString :: "'pd \<Rightarrow> string"
  Instant_toString :: "'ins \<Rightarrow> string"
  ZonedDateTime_toString :: "'zdt \<Rightarrow> string"
  timeZoneId :: "'zdt \<Rightarrow> string"

datatype ('pd, 'ins, 'zdt) temporal = PlainDate 'pd | Instant 'ins | ZonedDateTime 'zdt

definition toGoogleCalendarDate ::
  "('pd, 'ins, 'zdt) TemporalLib \<Rightarrow> ('pd, 'ins, 'zdt) temporal \<Rightarrow> GoogleCalendarDate" where
  "toGoogleCalendarDate T v =
     (case v of
        PlainDate d \<Rightarrow>
          \<lparr>gd_date = Some (PlainDate_toString T d), gd_dateTime = None, gd_timeZone = None\<rparr>
      | Instant i \<Rightarrow>
          \<lparr>gd_date = None, gd_dateTime = Some (Instant_toString T i), gd_timeZone = None\<rparr>
      | ZonedDateTime z \<Rightarrow>
          \<lparr>gd_date = None, gd_dateTime = Some (ZonedDateTime_toString T z),
           gd_timeZone = Some (timeZoneId T z)\<rparr>)"

text \<open>
  \<open>parseDate({ date })\<close>: destructuring an absent \<open>start\<close> or \<open>end\<close> is a
  \<open>TypeError\<close>, as is \<open>Temporal.PlainDate.from(undefined)\<close>; a string Temporal
  rejects is a \<open>RangeError\<close>.
\<close>

definition parseDate ::
  "('pd, 'ins, 'zdt) TemporalLib \<Rightarrow> GoogleCalendarDate option
     \<Rightarrow> error + ('pd, 'ins, 'zdt) temporal" where
  "parseDate T arg =
     (case arg of
        None \<Rightarrow> Inl TypeError
      | Some d \<Rightarrow>
          (case gd_date d of
             None \<Rightarrow> Inl TypeError
           | Some date \<Rightarrow>
               (case PlainDate_from T date of
                  None \<Rightarrow> Inl RangeError
                | Some p \<Rightarrow> Inr (PlainDate p))))"

definition parseDateTime ::
  "('pd, 'ins, 'zdt) TemporalLib \<Rightarrow> GoogleCalendarDate option
     \<Rightarrow> error + ('pd, 'ins, 'zdt) temporal" where
  "parseDateTime T arg =
     (case arg of
        None \<Rightarrow> Inl TypeError
      | Some d \<Rightarrow>
          (case gd_dateTime d of
             None \<Rightarrow> Inl TypeError
           | Some dateTime \<Rightarrow>
               (case Instant_from T dateTime of
                  None \<Rightarrow> Inl RangeError
                | Some instant \<Rightarrow>
                    if \<not> truthy (gd_timeZone d) then Inr (Instant instant)
                    else (case gd_timeZone d of
                            None \<Rightarrow> Inr (Instant instant)
                          | Some timeZone \<Rightarrow>
                              (case toZonedDateTimeISO T instant timeZone of
                                 None \<Rightarrow> Inl RangeError
                               | Some z \<Rightarrow> Inr (ZonedDateTime z))))))"

section \<open>Inbound events\<close>

text \<open>
  Modelled from the spec: the declaration of \<open>CalendarEvent\<close> (interfaces/events.ts)
  is missing; its properties are those of the object the mapper builds. \<open>Attendee\<close>
  and \<open>Calendar\<close> follow interfaces/calendars.ts. A property read through a non-null
  assertion (\<open>event.id!\<close>, \<open>entry.summary!\<close>, \<open>entry.primary!\<close>) is not checked
  at run time and stays optional in the model. \<open>ev_response = None\<close> is an event
  object without the key \<open>response\<close>.
\<close>

datatype attendeeType = required | optional | resource

record Attendee =
  a_id :: "string option"
  a_email :: "string option"
  a_name :: "string option"
  a_status :: "string option"
  a_type :: attendeeType
  a_comment :: "string option"
  a_additionalGuests :: "int option"

record Calendar =
  cal_id :: string
  cal_providerId :: string
  cal_name :: "string option"
  cal_description :: "string option"
  cal_timeZone :: "string option"
  cal_primary :: "bool option"
  cal_accountId :: string
  cal_color :: "string option"
  cal_readOnly :: bool

record EventResponse =
  rs_status :: "string option"
  rs_comment :: "string option"

record ('pd, 'ins, 'zdt) CalendarEvent =
  ev_id :: "string option"
  ev_title :: "string option"
  ev_description :: "string option"
  ev_start :: "('pd, 'ins, 'zdt) temporal"
  ev_end :: "('pd, 'ins, 'zdt) temporal"
  ev_allDay :: bool
  ev_location :: "string option"
  ev_status :: "string option"
  ev_attendees :: "Attendee list"
  ev_url :: "string option"
  ev_providerId :: string
  ev_accountId :: string
  ev_calendarId :: string
  ev_readOnly :: bool
  ev_conference :: "Conference option"
  ev_response :: "EventResponse option"

text \<open>
  The status of the payload is optional and is cast, not checked, before
  \<open>parseGoogleCalendarAttendeeStatus\<close> sees it; \<open>undefined\<close> is not
  \<open>"needsAction"\<close> and comes back unchanged.
\<close>

definition parseOptionalAttendeeStatus :: "string option \<Rightarrow> string option" where
  "parseOptionalAttendeeStatus status = map_option parseGoogleCalendarAttendeeStatus status"

definition parseGoogleCalendarAttendeeType :: "GoogleCalendarEventAttendee \<Rightarrow> attendeeType" where
  "parseGoogleCalendarAttendeeType attendee =
     (if truthyBool (at_resource attendee) then resource
      else if truthyBool (at_optional attendee) then optional
      else required)"

definition parseGoogleCalendarAttendee :: "GoogleCalendarEventAttendee \<Rightarrow> Attendee" where
  "parseGoogleCalendarAttendee attendee =
     \<lparr>a_id = at_id attendee,
      a_email = at_email attendee,
      a_name = at_displayName attendee,
      a_status = parseOptionalAttendeeStatus (at_responseStatus attendee),
      a_type = parseGoogleCalendarAttendeeType attendee,
      a_comment = at_comment attendee,
      a_additionalGuests = at_additionalGuests attendee\<rparr>"

definition selfAttendee :: "GoogleCalendarEvent \<Rightarrow> GoogleCalendarEventAttendee option" where
  "selfAttendee event =
     (case ge_attendees event of
        None \<Rightarrow> None
      | Some attendees \<Rightarrow> find (\<lambda>a. truthyBool (at_self a)) attendees)"

definition parseResponseStatus :: "GoogleCalendarEvent \<Rightarrow> EventResponse option" where
  "parseResponseStatus event =
     (case selfAttendee event of
        None \<Rightarrow> None
      | Some a \<Rightarrow>
          Some \<lparr>rs_status = parseOptionalAttendeeStatus (at_responseStatus a),
                rs_comment = at_comment a\<rparr>)"

text \<open>\<open>event.start?.dateTime\<close> and \<open>!event.start?.dateTime\<close>.\<close>

definition startDateTime :: "GoogleCalendarEvent \<Rightarrow> string option" where
  "startDateTime event =
     (case ge_start event of None \<Rightarrow> None | Some start \<Rightarrow> gd_dateTime start)"

definition isAllDay :: "GoogleCalendarEvent \<Rightarrow> bool" where
  "isAllDay event = (\<not> truthy (startDateTime event))"

text \<open>
  The object literal evaluates \<open>start\<close> before \<open>end\<close>; either parser may throw and
  nothing else in the function does.
\<close>

definition parseGoogleCalendarEvent ::
  "('pd, 'ins, 'zdt) TemporalLib \<Rightarrow> detector \<Rightarrow> Calendar \<Rightarrow> string \<Rightarrow> GoogleCalendarEvent
     \<Rightarrow> error + ('pd, 'ins, 'zdt) CalendarEvent" where
  "parseGoogleCalendarEvent T detectMeetingLink calendar accountId event =
     (let allDay = isAllDay event;
          response = parseResponseStatus event
      in case (if allDay then parseDate T (ge_start event)
               else parseDateTime T (ge_start event)) of
           Inl e \<Rightarrow> Inl e
         | Inr start \<Rightarrow>
             (case (if allDay then parseDate T (ge_end event)
                    else parseDateTime T (ge_end event)) of
                Inl e \<Rightarrow> Inl e
              | Inr end \<Rightarrow>
                  Inr \<lparr>ev_id = ge_id event,
                       ev_title = ge_summary event,
                       ev_description = ge_description event,
                       ev_start = start,
                       ev_end = end,
                       ev_allDay = allDay,
                       ev_location = ge_location event,
                       ev_status = ge_status event,
                       ev_attendees =
                         (case ge_attendees event of
                            None \<Rightarrow> []
                          | Some attendees \<Rightarrow> map parseGoogleCalendarAttendee attendees),
                       ev_url = ge_htmlLink event,
                       ev_providerId = ''google'',
                       ev_accountId = accountId,
                       ev_calendarId = cal_id calendar,
                       ev_readOnly = cal_readOnly calendar,
                       ev_conference = parseGoogleCalendarConferenceData detectMeetingLink event,
                       ev_response = response\<rparr>))"

section \<open>Calendar list entries\<close>

text \<open>
  Modelled from the spec: the declaration of \<open>GoogleCalendarCalendarListEntry\<close>
  (./interfaces) is missing; the properties are those the mapper reads, all optional.
\<close>

record GoogleCalendarCalendarListEntry =
  cle_id :: "string option"
  cle_summary :: "string option"
  cle_summaryOverride :: "string option"
  cle_description :: "string option"
  cle_timeZone :: "string option"
  cle_primary :: "bool option"
  cle_accessRole :: "string option"
  cle_backgroundColor :: "string option"

definition parseGoogleCalendarCalendarListEntry ::
  "string \<Rightarrow> GoogleCalendarCalendarListEntry \<Rightarrow> error + Calendar" where
  "parseGoogleCalendarCalendarListEntry accountId entry =
     (case cle_id entry of
        None \<Rightarrow> Inl (Error ''Calendar ID is missing'')
      | Some ident \<Rightarrow>
          if ident = [] then Inl (Error ''Calendar ID is missing'')
          else Inr \<lparr>cal_id = ident,
                    cal_providerId = ''google'',
                    cal_name = (case cle_summaryOverride entry of
                                  Some n \<Rightarrow> Some n | None \<Rightarrow> cle_summary entry),
                    cal_description = cle_description entry,
                    cal_timeZone = cle_timeZone entry,
                    cal_primary = cle_primary entry,
                    cal_accountId = accountId,
                    cal_color = cle_backgroundColor entry,
                    cal_readOnly = (cle_accessRole entry = Some ''reader''
                                     \<or> cle_accessRole entry = Some ''freeBusyReader'')\<rparr>)"

section \<open>Tasks\<close>

text \<open>
  Modelled from the spec: the declarations of \<open>GoogleTask\<close> and
  \<open>GoogleTaskUpdateParams\<close> (./interfaces), of \<open>Task\<close> (interfaces/tasks) and of
  \<open>CreateTaskInput | UpdateTaskInput\<close> (schemas/tasks) are missing; the properties
  are those the mappers read and write. \<open>ti_id = None\<close> is an input without the key
  \<open>id\<close>.
\<close>

record GoogleTask =
  gt_id :: "string option"
  gt_title :: "string option"
  gt_completed :: "string option"
  gt_notes :: "string option"
  gt_due :: "string option"

record 'pd Task =
  t_id :: "string option"
  t_title :: "string option"
  t_completed :: "'pd option"
  t_description :: "string option"
  t_due :: "'pd option"
  t_providerId :: string
  t_accountId :: string
  t_taskCollectionId :: string

text \<open>\<open>date.split("T")[0]\<close> is the text before the first \<open>T\<close>.\<close>

definition parseGoogleTaskDate :: "('pd, 'ins, 'zdt) TemporalLib \<Rightarrow> string \<Rightarrow> error + 'pd" where
  "parseGoogleTaskDate T date =
     (case PlainDate_from T (takeWhile (\<lambda>c. c \<noteq> CHR ''T'') date) of
        None \<Rightarrow> Inl RangeError
      | Some p \<Rightarrow> Inr p)"

text \<open>\<open>field ? parseGoogleTaskDate(field) : undefined\<close>.\<close>

definition parseOptionalTaskDate ::
  "('pd, 'ins, 'zdt) TemporalLib \<Rightarrow> string option \<Rightarrow> error + 'pd option" where
  "parseOptionalTaskDate T field =
     (case field of
        None \<Rightarrow> Inr None
      | Some date \<Rightarrow>
          if date = [] then Inr None
          else (case parseGoogleTaskDate T date of Inl e \<Rightarrow> Inl e | Inr p \<Rightarrow> Inr (Some p)))"

definition parseGoogleTask ::
  "('pd, 'ins, 'zdt) TemporalLib \<Rightarrow> GoogleTask \<Rightarrow> string \<Rightarrow> string \<Rightarrow> error + 'pd Task" where
  "parseGoogleTask T task collectionId accountId =
     (case parseOptionalTaskDate T (gt_completed task) of
        Inl e \<Rightarrow> Inl e
      | Inr completed \<Rightarrow>
          (case parseOptionalTaskDate T (gt_due task) of
             Inl e \<Rightarrow> Inl e
           | Inr due \<Rightarrow>
               Inr \<lparr>t_id = gt_id task,
                    t_title = gt_title task,
                    t_completed = completed,
                    t_description = gt_notes task,
                    t_due = due,
                    t_providerId = ''google'',
                    t_accountId = accountId,
                    t_taskCollectionId = collectionId\<rparr>))"

text \<open>
  \<open>task.completed ? "completed" : "needsAction"\<close> tests an optional plain date,
  truthy when it is defined.
\<close>

record 'pd TaskInput =
  ti_id :: "string option"
  ti_title :: "string option"
  ti_description :: "string option"
  ti_due :: "'pd option"
  ti_completed :: "'pd option"
  ti_taskCollectionId :: string

record GoogleTaskUpdateParams =
  tp_id :: "string option"
  tp_title :: "string option"
  tp_notes :: "string option"
  tp_due :: "string option"
  tp_status :: string
  tp_completed :: "string option"
  tp_tasklist :: string

definition toGoogleTask ::
  "('pd, 'ins, 'zdt) TemporalLib \<Rightarrow> 'pd TaskInput \<Rightarrow> GoogleTaskUpdateParams" where
  "toGoogleTask T task =
     \<lparr>tp_id = ti_id task,
      tp_title = ti_title task,
      tp_notes = ti_description task,
      tp_due = map_option (PlainDate_toString T) (ti_due task),
      tp_status = (case ti_completed task of Some d \<Rightarrow> ''completed'' | None \<Rightarrow> ''needsAction''),
      tp_completed = map_option (PlainDate_toString T) (ti_completed task),
      tp_tasklist = ti_taskCollectionId task\<rparr>"

section \<open>Outbound events\<close>

text \<open>
  Modelled from the spec: the declarations of \<open>CreateEventInput | UpdateEventInput\<close>
  (schemas/events) and of \<open>GoogleCalendarEventCreateParams\<close> (./interfaces) are
  missing; the properties are those the mapper reads and writes. \<open>in_id = None\<close> is
  an input without the key \<open>id\<close>, a create input.
\<close>

record ('pd, 'ins, 'zdt) EventInput =
  in_id :: "string option"
  in_title :: "string option"
  in_description :: "string option"
  in_location :: "string option"
  in_start :: "('pd, 'ins, 'zdt) temporal"
  in_end :: "('pd, 'ins, 'zdt) temporal"
  in_conference :: "Conference option"

record GoogleCalendarEventCreateParams =
  cp_id :: "string option"
  cp_summary :: "string option"
  cp_description :: "string option"
  cp_location :: "string option"
  cp_start :: GoogleCalendarDate
  cp_end :: GoogleCalendarDate
  cp_conferenceData :: "GoogleCalendarEventConferenceData option"
  cp_conferenceDataVersion :: int

definition toGoogleCalendarEvent ::
  "('pd, 'ins, 'zdt) TemporalLib \<Rightarrow> (string \<Rightarrow> (string \<times> string) option)
     \<Rightarrow> (unknown \<Rightarrow> string) \<Rightarrow> ('pd, 'ins, 'zdt) EventInput
     \<Rightarrow> GoogleCalendarEventCreateParams" where
  "toGoogleCalendarEvent T newURL String event =
     \<lparr>cp_id = in_id event,
      cp_summary = in_title event,
      cp_description = in_description event,
      cp_location = in_location event,
      cp_start = toGoogleCalendarDate T (in_start event),
      cp_end = toGoogleCalendarDate T (in_end event),
      cp_conferenceData =
        (case in_conference event of
           Some conference \<Rightarrow> Some (toGoogleCalendarConferenceData newURL String conference)
         | None \<Rightarrow> None),
      cp_conferenceDataVersion = 1\<rparr>"

section \<open>Reading payloads\<close>

text \<open>The entry points of conference data, none when the property is absent.\<close>

definition entryPointsOf :: "GoogleCalendarEventConferenceData \<Rightarrow> GoogleEntryPoint list" where
  "entryPointsOf conferenceData =
     (case cd_entryPoints conferenceData of None \<Rightarrow> [] | Some entryPoints \<Rightarrow> entryPoints)"

text \<open>The structured entry points of an event: \<open>event.conferenceData?.entryPoints\<close>.\<close>

definition structuredEntryPoints :: "GoogleCalendarEvent \<Rightarrow> GoogleEntryPoint list" where
  "structuredEntryPoints event =
     (case ge_conferenceData event of
        None \<Rightarrow> []
      | Some conferenceData \<Rightarrow> entryPointsOf conferenceData)"

text \<open>The attendees of an event, none when the property is absent.\<close>

definition attendeesOf :: "GoogleCalendarEvent \<Rightarrow> GoogleCalendarEventAttendee list" where
  "attendeesOf event = (case ge_attendees event of None \<Rightarrow> [] | Some attendees \<Rightarrow> attendees)"

text \<open>\<open>conferenceSolution?.name\<close> and \<open>conferenceSolution?.key?.type\<close>.\<close>

definition solutionName :: "GoogleCalendarEventConferenceData \<Rightarrow> string option" where
  "solutionName conferenceData =
     (case cd_conferenceSolution conferenceData of
        None \<Rightarrow> None
      | Some solution \<Rightarrow> cs_name solution)"

definition solutionKeyType :: "GoogleCalendarEventConferenceData \<Rightarrow> string option" where
  "solutionKeyType conferenceData =
     (case cd_conferenceSolution conferenceData of
        None \<Rightarrow> None
      | Some solution \<Rightarrow>
          (case cs_key solution of None \<Rightarrow> None | Some k \<Rightarrow> key_type k))"

section \<open>The fallback scan in the words of the specification\<close>

text \<open>
  A text field is scanned for \<open>http(s)://\<close> tokens bounded by white space or by
  quoting and bracket characters. The boundary characters are the white space of the
  code units 0..255 and \<open>< > " ' { } | \ ^ ` [ ]\<close>.
\<close>

definition urlBoundary :: "char \<Rightarrow> bool" where
  "urlBoundary c \<longleftrightarrow>
     c \<in> set [CHR 0x09, CHR 0x0A, CHR 0x0B, CHR 0x0C, CHR 0x0D, CHR '' '', CHR 0xA0,
              CHR ''<'', CHR ''>'', CHR 0x22, CHR 0x27, CHR ''{'', CHR ''}'', CHR ''|'',
              CHR 0x5C, CHR ''^'', CHR 0x60, CHR ''['', CHR '']'']"

abbreviation (input) inUrl :: "char \<Rightarrow> bool" where
  "inUrl \<equiv> (\<lambda>c. \<not> urlBoundary c)"

text \<open>
  The length of the scheme a text begins with, in either case of the letters: 7 for
  \<open>http://\<close>, 8 for \<open>https://\<close>, and 0 when it begins with neither.
\<close>

definition urlSchemeLength :: "string \<Rightarrow> nat" where
  "urlSchemeLength s =
     (if toLowerCase (take 7 s) = ''http://'' then 7
      else if toLowerCase (take 8 s) = ''https://'' then 8
      else 0)"

text \<open>
  The words of a text are its pieces between boundary characters. The token of a
  word is the word from the first place on where a scheme begins that has at least one
  character after it; a word with no such place has no token.
\<close>

fun wordsOf :: "string \<Rightarrow> string list" where
  "wordsOf [] = [[]]"
| "wordsOf (c # cs) =
     (if urlBoundary c then [] # wordsOf cs
      else (case wordsOf cs of [] \<Rightarrow> [[c]] | w # ws \<Rightarrow> (c # w) # ws))"

fun urlInWord :: "string \<Rightarrow> string option" where
  "urlInWord [] = None"
| "urlInWord (c # cs) =
     (if 0 < urlSchemeLength (c # cs) \<and> urlSchemeLength (c # cs) < length (c # cs)
      then Some (c # cs) else urlInWord cs)"

definition urlTokens :: "string \<Rightarrow> string list" where
  "urlTokens t = List.map_filter urlInWord (wordsOf t)"

text \<open>
  The candidates of the scan in their order of priority: the legacy hangout link, the
  URL tokens of the description, the URL tokens of the location, the source URL, the
  file URLs of the attachments and the legacy gadget link. An absent or empty link is
  no candidate. The scan returns the conference of the first candidate the detector
  recognizes: the id and the name of the service, and a video entry with the join URL
  of the service and its id as the meeting code.
\<close>

definition linkCandidates :: "string option \<Rightarrow> string list" where
  "linkCandidates link = (case link of None \<Rightarrow> [] | Some url \<Rightarrow> if url = [] then [] else [url])"

definition textCandidates :: "string option \<Rightarrow> string list" where
  "textCandidates field = (case field of None \<Rightarrow> [] | Some t \<Rightarrow> urlTokens t)"

definition fallbackCandidates :: "GoogleCalendarEvent \<Rightarrow> string list" where
  "fallbackCandidates event =
     linkCandidates (ge_hangoutLink event)
     @ textCandidates (ge_description event)
     @ textCandidates (ge_location event)
     @ (case ge_source event of None \<Rightarrow> [] | Some source \<Rightarrow> linkCandidates (src_url source))
     @ (case ge_attachments event of
          None \<Rightarrow> []
        | Some attachments \<Rightarrow> concat (map (\<lambda>a. linkCandidates (att_fileUrl a)) attachments))
     @ (case ge_gadget event of None \<Rightarrow> [] | Some gadget \<Rightarrow> linkCandidates (gadget_link gadget))"

definition serviceConference :: "MeetingService \<Rightarrow> Conference" where
  "serviceConference service =
     \<lparr>c_id = Some (ms_id service),
      c_conferenceId = None,
      c_name = Some (ms_name service),
      c_video = Some \<lparr>cep_joinUrl = \<lparr>ju_label = None, ju_value = ms_joinUrl service\<rparr>,
                      cep_meetingCode = Some (ms_id service),
                      cep_accessCode = None,
                      cep_password = None\<rparr>,
      c_sip = None, c_phone = None, c_extra = None\<rparr>"

definition firstRecognized :: "detector \<Rightarrow> string list \<Rightarrow> Conference option" where
  "firstRecognized detectMeetingLink urls =
     (case find (\<lambda>url. detectMeetingLink url \<noteq> None) urls of
        None \<Rightarrow> None
      | Some url \<Rightarrow> map_option serviceConference (detectMeetingLink url))"

section \<open>Example values\<close>

text \<open>A conference with no property set, and one with a video and a phone entry.\<close>

definition noConference :: Conference where
  "noConference =
     \<lparr>c_id = None, c_conferenceId = None, c_name = None, c_video = None, c_sip = None,
      c_phone = None, c_extra = None\<rparr>"

definition exampleConference :: Conference where
  "exampleConference =
     noConference
       \<lparr>c_video :=
          Some \<lparr>cep_joinUrl = \<lparr>ju_label = None, ju_value = ''https://meet.example/x''\<rparr>,
                cep_meetingCode = None,
                cep_accessCode = Some ''A1'',
                cep_password = Some ''secret''\<rparr>,
        c_phone :=
          Some [\<lparr>cep_joinUrl = \<lparr>ju_label = None, ju_value = ''15551234567''\<rparr>,
                 cep_meetingCode = Some ''M2'',
                 cep_accessCode = Some ''4321'',
                 cep_password = Some ''P3''\<rparr>]\<rparr>"

text \<open>
  A stand-in for Temporal that keeps a date and an instant as their text and a zoned
  date-time as the instant and the zone; an event payload, an attendee and a calendar
  with no optional property set; an all-day event with a self attendee, and a timed
  event whose start has a time zone and whose end has none.
\<close>

definition textTemporal :: "(string, string, string \<times> string) TemporalLib" where
  "textTemporal =
     \<lparr>PlainDate_from = (\<lambda>s. if length s = 10 then Some s else None),
      Instant_from = (\<lambda>s. if length s = 20 then Some s else None),
      toZonedDateTimeISO = (\<lambda>i tz. if tz = ''Europe/Paris'' \<or> tz = ''UTC'' then Some (i, tz) else None),
      PlainDate_toString = (\<lambda>d. d),
      Instant_toString = (\<lambda>i. i),
      ZonedDateTime_toString = fst,
      timeZoneId = snd\<rparr>"

definition noEvent :: GoogleCalendarEvent where
  "noEvent =
     \<lparr>ge_id = None, ge_summary = None, ge_description = None, ge_start = None, ge_end = None,
      ge_location = None, ge_status = None, ge_attendees = None, ge_htmlLink = None,
      ge_conferenceData = None, ge_hangoutLink = None, ge_source = None,
      ge_attachments = None, ge_gadget = None\<rparr>"

definition noAttendee :: GoogleCalendarEventAttendee where
  "noAttendee =
     \<lparr>at_id = None, at_email = None, at_displayName = None, at_responseStatus = None,
      at_comment = None, at_additionalGuests = None, at_self = None, at_resource = None,
      at_optional = None\<rparr>"

definition exampleCalendar :: Calendar where
  "exampleCalendar =
     \<lparr>cal_id = ''primary'', cal_providerId = ''google'', cal_name = Some ''Work'',
      cal_description = None, cal_timeZone = None, cal_primary = Some True,
      cal_accountId = ''acct'', cal_color = None, cal_readOnly = False\<rparr>"

definition allDayEvent :: GoogleCalendarEvent where
  "allDayEvent =
     noEvent
       \<lparr>ge_start := Some \<lparr>gd_date = Some ''2024-05-01'', gd_dateTime = None, gd_timeZone = None\<rparr>,
        ge_end := Some \<lparr>gd_date = Some ''2024-05-02'', gd_dateTime = None, gd_timeZone = None\<rparr>,
        ge_attendees :=
          Some [noAttendee\<lparr>at_email := Some ''a@x.org'', at_responseStatus := Some ''accepted''\<rparr>,
                noAttendee\<lparr>at_self := Some True, at_responseStatus := Some ''needsAction'',
                           at_comment := Some ''late''\<rparr>]\<rparr>"

definition timedEvent :: GoogleCalendarEvent where
  "timedEvent =
     noEvent
       \<lparr>ge_start := Some \<lparr>gd_date = None, gd_dateTime = Some ''2024-05-01T09:00:00Z'',
                         gd_timeZone = Some ''Europe/Paris''\<rparr>,
        ge_end := Some \<lparr>gd_date = None, gd_dateTime = Some ''2024-05-01T10:00:00Z'',
                       gd_timeZone = None\<rparr>\<rparr>"

text \<open>
  An all-day event whose end also has a \<open>dateTime\<close>, and an event whose start has
  a \<open>dateTime\<close> and whose end has none.
\<close>

definition dateStartEvent :: GoogleCalendarEvent where
  "dateStartEvent =
     noEvent
       \<lparr>ge_start := Some \<lparr>gd_date = Some ''2024-05-01'', gd_dateTime = None, gd_timeZone = None\<rparr>,
        ge_end := Some \<lparr>gd_date = Some ''2024-05-02'',
                       gd_dateTime = Some ''2024-05-02T00:00:00Z'', gd_timeZone = None\<rparr>\<rparr>"

definition dateEndEvent :: GoogleCalendarEvent where
  "dateEndEvent =
     noEvent
       \<lparr>ge_start := Some \<lparr>gd_date = Some ''2024-05-01'',
                         gd_dateTime = Some ''2024-05-01T09:00:00Z'', gd_timeZone = None\<rparr>,
        ge_end := Some \<lparr>gd_date = Some ''2024-05-02'', gd_dateTime = None, gd_timeZone = None\<rparr>\<rparr>"

text \<open>
  A detector that knows two services, and an event with a candidate in each of the
  six places: in the description the URL the detector knows comes after one it does
  not know, and in the location the scheme is in capitals.
\<close>

definition exampleDetector :: detector where
  "exampleDetector url =
     (if startsWith url ''https://meet.google.com/''
      then Some \<lparr>ms_id = ''google-meet'', ms_name = ''Google Meet'', ms_joinUrl = url\<rparr>
      else if startsWith url ''https://zoom.us/''
      then Some \<lparr>ms_id = ''zoom'', ms_name = ''Zoom'', ms_joinUrl = url\<rparr>
      else None)"

definition linkedEvent :: GoogleCalendarEvent where
  "linkedEvent =
     noEvent
       \<lparr>ge_hangoutLink := Some ''https://meet.google.com/abc-defg-hij'',
        ge_description :=
          Some ''Agenda: http://example.org/agenda then join <https://zoom.us/j/123> now'',
        ge_location := Some ''Room 4 or HTTPS://zoom.us/j/456'',
        ge_source := Some \<lparr>src_url = Some ''https://zoom.us/j/789''\<rparr>,
        ge_attachments :=
          Some [\<lparr>att_fileUrl = None\<rparr>, \<lparr>att_fileUrl = Some ''https://drive.example/file''\<rparr>],
        ge_gadget := Some \<lparr>gadget_link = Some ''https://meet.google.com/old-gadget''\<rparr>\<rparr>"

section \<open>Properties of the status mappings\<close>

text \<open>
  C6. Outbound, \<open>"unknown"\<close> becomes \<open>"needsAction"\<close> and every other status is
  returned as it is; inbound, \<open>"needsAction"\<close> becomes \<open>"unknown"\<close> and every other
  status is returned as it is. On the statuses of the domain, inbound after outbound is
  the identity, and on the statuses of the provider, outbound after inbound is.
\<close>

theorem attendee_status_maps:
  "toGoogleCalendarAttendeeResponseStatus ''unknown'' = ''needsAction''
   \<and> (s \<noteq> ''unknown'' \<longrightarrow> toGoogleCalendarAttendeeResponseStatus s = s)
   \<and> parseGoogleCalendarAttendeeStatus ''needsAction'' = ''unknown''
   \<and> (g \<noteq> ''needsAction'' \<longrightarrow> parseGoogleCalendarAttendeeStatus g = g)
   \<and> (s \<in> set attendeeStatuses \<longrightarrow>
        parseGoogleCalendarAttendeeStatus (toGoogleCalendarAttendeeResponseStatus s) = s)
   \<and> (g \<in> set googleResponseStatuses \<longrightarrow>
        toGoogleCalendarAttendeeResponseStatus (parseGoogleCalendarAttendeeStatus g) = g)"
  by (auto simp: toGoogleCalendarAttendeeResponseStatus_def parseGoogleCalendarAttendeeStatus_def
      attendeeStatuses_def googleResponseStatuses_def)

theorem attendee_status_maps_witness:
  "''accepted'' \<noteq> ''unknown''
   \<and> toGoogleCalendarAttendeeResponseStatus ''accepted'' = ''accepted''
   \<and> ''declined'' \<noteq> ''needsAction''
   \<and> parseGoogleCalendarAttendeeStatus ''declined'' = ''declined''
   \<and> ''accepted'' \<in> set attendeeStatuses
   \<and> parseGoogleCalendarAttendeeStatus (toGoogleCalendarAttendeeResponseStatus ''accepted'')
        = ''accepted''
   \<and> ''declined'' \<in> set googleResponseStatuses
   \<and> toGoogleCalendarAttendeeResponseStatus (parseGoogleCalendarAttendeeStatus ''declined'')
        = ''declined''"
proof -
  have a: "''accepted'' \<noteq> ''unknown''" and d: "''declined'' \<noteq> ''needsAction''"
    by simp_all
  have sa: "''accepted'' \<in> set attendeeStatuses"
    by (simp add: attendeeStatuses_def)
  have sd: "''declined'' \<in> set googleResponseStatuses"
    by (simp add: googleResponseStatuses_def)
  from a d sa sd attendee_status_maps [of "''accepted''" "''declined''"]
  show ?thesis by blast
qed

section \<open>Properties of the outbound mapping\<close>

lemma entryPointsOf_outbound:
  "entryPointsOf (toGoogleCalendarConferenceData newURL String c) = outboundEntryPoints newURL c"
  by (simp add: entryPointsOf_def toGoogleCalendarConferenceData_def Let_def)

lemma filter_phone_map_phone:
  "filter (\<lambda>e. ep_entryPointType e = Some ''phone'') (map toPhoneEntryPoint ps)
     = map toPhoneEntryPoint ps"
  by (induction ps) (simp_all add: toPhoneEntryPoint_def)

lemma filter_phone_outbound:
  "filter (\<lambda>e. ep_entryPointType e = Some ''phone'') (outboundEntryPoints newURL c)
     = map toPhoneEntryPoint (case c_phone c of None \<Rightarrow> [] | Some phone \<Rightarrow> phone)"
  by (simp add: outboundEntryPoints_def toVideoEntryPoint_def toSipEntryPoint_def
      filter_phone_map_phone split: option.splits)

text \<open>
  C7. The phone entry points of an outbound-mapped conference are, in order, the
  phone entries of the input, and the URI of each is the join URL value when that
  starts with \<open>tel:\<close> and \<open>tel:\<close> followed by the value otherwise. A phone entry
  with the value \<open>15551234567\<close> gets the URI \<open>tel:15551234567\<close>, and one with the
  value \<open>tel:555\<close> keeps it.
\<close>

theorem phone_uri_tel_scheme:
  "map ep_uri (filter (\<lambda>e. ep_entryPointType e = Some ''phone'')
                  (entryPointsOf (toGoogleCalendarConferenceData newURL String c)))
     = map (\<lambda>p. Some (if startsWith (ju_value (cep_joinUrl p)) ''tel:''
                       then ju_value (cep_joinUrl p)
                       else ''tel:'' @ ju_value (cep_joinUrl p)))
           (case c_phone c of None \<Rightarrow> [] | Some phone \<Rightarrow> phone)
   \<and> ep_uri (toPhoneEntryPoint (p\<lparr>cep_joinUrl := j\<lparr>ju_value := ''15551234567''\<rparr>\<rparr>))
        = Some ''tel:15551234567''
   \<and> ep_uri (toPhoneEntryPoint (p\<lparr>cep_joinUrl := j\<lparr>ju_value := ''tel:555''\<rparr>\<rparr>))
        = Some ''tel:555''"
  by (simp add: entryPointsOf_outbound filter_phone_outbound toPhoneEntryPoint_def
      toPhoneUri_def)

text \<open>
  C10. The request body of every create or update input carries
  \<open>conferenceDataVersion = 1\<close>, also when the input has no conference.
\<close>

theorem event_conference_data_version:
  "cp_conferenceDataVersion (toGoogleCalendarEvent T newURL String event) = 1
   \<and> cp_conferenceDataVersion
        (toGoogleCalendarEvent T newURL String (event\<lparr>in_conference := None\<rparr>)) = 1"
  by (simp add: toGoogleCalendarEvent_def)

lemma startsWith_iff: "startsWith s p \<longleftrightarrow> (\<exists>q. s = p @ q)"
  by (induction s p rule: startsWith.induct) auto

lemma includesStr_iff: "includesStr s sub \<longleftrightarrow> (\<exists>p q. s = p @ sub @ q)"
proof (induction s)
  case Nil
  then show ?case by auto
next
  case (Cons c cs)
  show ?case
  proof
    assume "includesStr (c # cs) sub"
    then consider "startsWith (c # cs) sub" | "includesStr cs sub" by auto
    then show "\<exists>p q. c # cs = p @ sub @ q"
    proof cases
      case 1
      then obtain q where "c # cs = sub @ q" by (auto simp: startsWith_iff)
      then have "c # cs = [] @ sub @ q" by simp
      then show ?thesis by blast
    next
      case 2
      with Cons.IH obtain p q where "cs = p @ sub @ q" by blast
      then have "c # cs = (c # p) @ sub @ q" by simp
      then show ?thesis by blast
    qed
  next
    assume "\<exists>p q. c # cs = p @ sub @ q"
    then obtain p q where pq: "c # cs = p @ sub @ q" by blast
    show "includesStr (c # cs) sub"
    proof (cases p)
      case Nil
      with pq have "startsWith (c # cs) sub" by (auto simp: startsWith_iff)
      then show ?thesis by simp
    next
      case (Cons a p')
      with pq have "cs = p' @ sub @ q" by simp
      with Cons.IH have "includesStr cs sub" by blast
      then show ?thesis by simp
    qed
  qed
qed

text \<open>
  C5, as the claim states it, fails for a name that is supplied and empty: the name
  emitted is the empty name, so the name counts as supplied, it does not contain
  \<open>google\<close>, and yet the type key is \<open>hangoutsMeet\<close>, not \<open>addOn\<close>.
\<close>

theorem conference_solution_counterexample:
  "c_name (noConference\<lparr>c_name := Some []\<rparr>) = Some []
   \<and> \<not> includesStr (toLowerCase []) ''google''
   \<and> solutionName (toGoogleCalendarConferenceData (\<lambda>u. None) (\<lambda>v. [])
        (noConference\<lparr>c_name := Some []\<rparr>)) = Some []
   \<and> solutionKeyType (toGoogleCalendarConferenceData (\<lambda>u. None) (\<lambda>v. [])
        (noConference\<lparr>c_name := Some []\<rparr>)) = Some ''hangoutsMeet''"
  by (simp add: noConference_def solutionName_def solutionKeyType_def
      toGoogleCalendarConferenceData_def conferenceSolutionType_def truthy_def toLowerCase_def
      Let_def)

text \<open>
  C5, amended. The solution name emitted is the input name when one is supplied (an
  empty name included) and \<open>Google Meet\<close> otherwise. The type key is \<open>hangoutsMeet\<close>
  when the name is absent or empty, \<open>hangoutsMeet\<close> when the lower-cased name has
  \<open>google\<close> as a substring, and \<open>addOn\<close> for every other name that is not empty.
\<close>

theorem conference_solution_name_and_type:
  "solutionName (toGoogleCalendarConferenceData newURL String c)
     = Some (case c_name c of Some name \<Rightarrow> name | None \<Rightarrow> ''Google Meet'')
   \<and> solutionKeyType (toGoogleCalendarConferenceData newURL String c)
     = Some (case c_name c of
               None \<Rightarrow> ''hangoutsMeet''
             | Some name \<Rightarrow>
                 if name = [] then ''hangoutsMeet''
                 else if \<exists>p q. toLowerCase name = p @ ''google'' @ q then ''hangoutsMeet''
                 else ''addOn'')"
  by (simp add: solutionName_def solutionKeyType_def toGoogleCalendarConferenceData_def
      conferenceSolutionType_def truthy_def Let_def includesStr_iff split: option.splits)

lemma outbound_entry_cases:
  assumes "e \<in> set (outboundEntryPoints newURL c)"
  shows "(\<exists>v. c_video c = Some v \<and> ju_value (cep_joinUrl v) \<noteq> [] \<and> e = toVideoEntryPoint newURL v)
       \<or> (\<exists>s. c_sip c = Some s \<and> ju_value (cep_joinUrl s) \<noteq> [] \<and> e = toSipEntryPoint s)
       \<or> (\<exists>ps p. c_phone c = Some ps \<and> p \<in> set ps \<and> e = toPhoneEntryPoint p)"
  using assms
  by (cases "c_video c"; cases "c_sip c"; cases "c_phone c")
     (auto simp: outboundEntryPoints_def split: if_splits)

lemma exampleConference_outbound:
  "entryPointsOf (toGoogleCalendarConferenceData (\<lambda>u. None) (\<lambda>v. []) exampleConference)
     = [\<lparr>ep_entryPointType = Some ''video'', ep_uri = Some ''https://meet.example/x'',
         ep_label = Some ''https://meet.example/x'', ep_meetingCode = None,
         ep_accessCode = None, ep_password = Some ''secret'',
         ep_passcode = Some ''secret'', ep_pin = None\<rparr>,
        \<lparr>ep_entryPointType = Some ''phone'', ep_uri = Some ''tel:15551234567'',
         ep_label = Some ''15551234567'', ep_meetingCode = None,
         ep_accessCode = Some ''4321'', ep_password = None,
         ep_passcode = None, ep_pin = Some ''4321''\<rparr>]"
  by (simp add: entryPointsOf_outbound outboundEntryPoints_def exampleConference_def
      noConference_def toVideoEntryPoint_def toPhoneEntryPoint_def toPhoneUri_def
      toJoinUrl_def orElse_def spreadIfTruthy_def truthy_def)

text \<open>
  C4, as the claim states it, fails on the example conference: its video entry point
  carries a password and no \<open>pin\<close> (the password is repeated as \<open>passcode\<close>), and
  its phone entry point carries an \<open>accessCode\<close> and no \<open>meetingCode\<close> (the access
  code is repeated as \<open>pin\<close>).
\<close>

theorem outbound_code_fields_counterexample:
  "map (\<lambda>e. (ep_entryPointType e, ep_password e, ep_pin e, ep_accessCode e, ep_meetingCode e))
       (entryPointsOf
          (toGoogleCalendarConferenceData (\<lambda>u. None) (\<lambda>v. []) exampleConference))
     = [(Some ''video'', Some ''secret'', None, None, None),
        (Some ''phone'', None, Some ''4321'', Some ''4321'', None)]"
  by (simp add: exampleConference_outbound)

text \<open>
  C4, amended. Every outbound entry point is a video, a sip or a phone entry point. A
  video or sip entry point has its meeting code under \<open>meetingCode\<close> and
  \<open>accessCode\<close> and its password under \<open>password\<close> and \<open>passcode\<close>, and no
  \<open>pin\<close>; a phone entry point has its access code under \<open>accessCode\<close> and \<open>pin\<close>,
  and neither \<open>meetingCode\<close> nor \<open>password\<close> nor \<open>passcode\<close>.
\<close>

theorem outbound_code_fields:
  "e \<in> set (entryPointsOf (toGoogleCalendarConferenceData newURL String c)) \<Longrightarrow>
     (if ep_entryPointType e = Some ''phone''
      then ep_pin e = ep_accessCode e \<and> ep_meetingCode e = None
           \<and> ep_password e = None \<and> ep_passcode e = None
      else (ep_entryPointType e = Some ''video'' \<or> ep_entryPointType e = Some ''sip'')
           \<and> ep_accessCode e = ep_meetingCode e \<and> ep_passcode e = ep_password e
           \<and> ep_pin e = None)"
  unfolding entryPointsOf_outbound
  by (drule outbound_entry_cases)
     (auto simp: toVideoEntryPoint_def toSipEntryPoint_def toPhoneEntryPoint_def)

theorem outbound_code_fields_witness:
  "toPhoneEntryPoint \<lparr>cep_joinUrl = \<lparr>ju_label = None, ju_value = ''15551234567''\<rparr>,
                      cep_meetingCode = Some ''M2'', cep_accessCode = Some ''4321'',
                      cep_password = Some ''P3''\<rparr>
     \<in> set (entryPointsOf
              (toGoogleCalendarConferenceData (\<lambda>u. None) (\<lambda>v. []) exampleConference))
   \<and> ep_pin (toPhoneEntryPoint \<lparr>cep_joinUrl = \<lparr>ju_label = None, ju_value = ''15551234567''\<rparr>,
                      cep_meetingCode = Some ''M2'', cep_accessCode = Some ''4321'',
                      cep_password = Some ''P3''\<rparr>) = Some ''4321''
   \<and> ep_accessCode (toPhoneEntryPoint
                      \<lparr>cep_joinUrl = \<lparr>ju_label = None, ju_value = ''15551234567''\<rparr>,
                       cep_meetingCode = Some ''M2'', cep_accessCode = Some ''4321'',
                       cep_password = Some ''P3''\<rparr>) = Some ''4321''
   \<and> ep_password (toPhoneEntryPoint
                      \<lparr>cep_joinUrl = \<lparr>ju_label = None, ju_value = ''15551234567''\<rparr>,
                       cep_meetingCode = Some ''M2'', cep_accessCode = Some ''4321'',
                       cep_password = Some ''P3''\<rparr>) = None"
proof -
  let ?p = "\<lparr>cep_joinUrl = \<lparr>ju_label = None, ju_value = ''15551234567''\<rparr>,
             cep_meetingCode = Some ''M2'', cep_accessCode = Some ''4321'',
             cep_password = Some ''P3''\<rparr>"
  have m: "toPhoneEntryPoint ?p
             \<in> set (entryPointsOf
                      (toGoogleCalendarConferenceData (\<lambda>u. None) (\<lambda>v. []) exampleConference))"
    by (simp add: exampleConference_outbound toPhoneEntryPoint_def toPhoneUri_def
        orElse_def spreadIfTruthy_def truthy_def)
  have t: "ep_entryPointType (toPhoneEntryPoint ?p) = Some ''phone''"
    and a: "ep_accessCode (toPhoneEntryPoint ?p) = Some ''4321''"
    by (simp_all add: toPhoneEntryPoint_def spreadIfTruthy_def truthy_def)
  from outbound_code_fields [OF m] t a m show ?thesis by simp
qed

section \<open>Properties of the calendar list mapping\<close>

text \<open>
  C8. \<open>parseGoogleCalendarCalendarListEntry\<close> fails exactly when the id of the entry
  is missing, which the source tests as \<open>!entry.id\<close>: the id is absent or the empty
  string. The failure is \<open>Error("Calendar ID is missing")\<close>, and with an id the result
  is a calendar with that id. No other operation that can fail (parsing an event,
  parsing a task) fails with an \<open>Error\<close> of the module's own: their failures are
  those of Temporal and of the runtime.
\<close>

theorem calendar_id_validation:
  "(parseGoogleCalendarCalendarListEntry accountId entry = Inl (Error ''Calendar ID is missing'')
      \<longleftrightarrow> \<not> truthy (cle_id entry))
   \<and> ((\<exists>e. parseGoogleCalendarCalendarListEntry accountId entry = Inl e)
      \<longleftrightarrow> \<not> truthy (cle_id entry))
   \<and> ((\<exists>calendar. parseGoogleCalendarCalendarListEntry accountId entry = Inr calendar
          \<and> cle_id entry = Some (cal_id calendar))
      \<longleftrightarrow> truthy (cle_id entry))
   \<and> parseGoogleCalendarEvent T detectMeetingLink cal accountId event \<noteq> Inl (Error m)
   \<and> parseGoogleTask T task collectionId accountId \<noteq> Inl (Error m)"
proof -
  have d: "e \<noteq> Error m" if "parseDate T x = Inl e" for x e
    using that by (auto simp: parseDate_def split: option.splits)
  have dt: "e \<noteq> Error m" if "parseDateTime T x = Inl e" for x e
    using that by (auto simp: parseDateTime_def split: option.splits if_splits)
  have ev: "parseGoogleCalendarEvent T detectMeetingLink cal accountId event \<noteq> Inl (Error m)"
    by (auto simp: parseGoogleCalendarEvent_def Let_def split: sum.splits if_splits
        dest: d dt)
  have td: "e \<noteq> Error m" if "parseOptionalTaskDate T x = Inl e" for x e
    using that
    by (auto simp: parseOptionalTaskDate_def parseGoogleTaskDate_def
        split: option.splits if_splits sum.splits)
  have tk: "parseGoogleTask T task collectionId accountId \<noteq> Inl (Error m)"
    by (auto simp: parseGoogleTask_def split: sum.splits dest: td)
  show ?thesis using ev tk
    by (auto simp: parseGoogleCalendarCalendarListEntry_def truthy_def split: option.splits)
qed

section \<open>Properties of the inbound event mapping\<close>

lemma find_Some_split:
  "find P xs = Some a \<Longrightarrow> \<exists>pre post. xs = pre @ a # post \<and> P a \<and> (\<forall>b \<in> set pre. \<not> P b)"
proof (induction xs)
  case Nil
  then show ?case by simp
next
  case (Cons x xs)
  show ?case
  proof (cases "P x")
    case True
    with Cons.prems have "x = a" by simp
    with True have "x # xs = [] @ a # xs \<and> P a \<and> (\<forall>b \<in> set []. \<not> P b)" by simp
    then show ?thesis by blast
  next
    case False
    with Cons obtain pre post where "xs = pre @ a # post" "P a" "\<forall>b \<in> set pre. \<not> P b"
      by auto
    with False have "x # xs = (x # pre) @ a # post \<and> P a \<and> (\<forall>b \<in> set (x # pre). \<not> P b)"
      by simp
    then show ?thesis by blast
  qed
qed

lemma parseGoogleCalendarEvent_Inr:
  assumes "parseGoogleCalendarEvent T detect cal acc ev = Inr r"
  shows "ev_response r = parseResponseStatus ev"
    and "ev_allDay r = isAllDay ev"
    and "(if isAllDay ev then parseDate T (ge_start ev) else parseDateTime T (ge_start ev))
           = Inr (ev_start r)"
    and "(if isAllDay ev then parseDate T (ge_end ev) else parseDateTime T (ge_end ev))
           = Inr (ev_end r)"
  using assms
  by (auto simp: parseGoogleCalendarEvent_def Let_def split: sum.splits if_splits)

lemma parseGoogleCalendarEvent_returns:
  "(\<exists>r. parseGoogleCalendarEvent T detect cal acc ev = Inr r)
     \<longleftrightarrow> (\<exists>s e. (if isAllDay ev then parseDate T (ge_start ev)
                  else parseDateTime T (ge_start ev)) = Inr s
              \<and> (if isAllDay ev then parseDate T (ge_end ev)
                  else parseDateTime T (ge_end ev)) = Inr e)"
  by (auto simp: parseGoogleCalendarEvent_def Let_def split: sum.splits if_splits)

text \<open>
  C9. Where \<open>parseGoogleCalendarEvent\<close> returns an event, its \<open>response\<close> is
  that of the first attendee flagged \<open>self\<close>: absent (\<open>None\<close>, the key is not
  written) when no attendee is flagged, and otherwise the parsed status and the
  comment of that attendee.
\<close>

theorem event_response_of_self_attendee:
  assumes "parseGoogleCalendarEvent T detect cal acc ev = Inr r"
  shows "ev_response r =
           (case find (\<lambda>a. at_self a = Some True) (attendeesOf ev) of
              None \<Rightarrow> None
            | Some a \<Rightarrow>
                Some \<lparr>rs_status = map_option parseGoogleCalendarAttendeeStatus
                                    (at_responseStatus a),
                      rs_comment = at_comment a\<rparr>)
       \<and> ((\<forall>a \<in> set (attendeesOf ev). at_self a \<noteq> Some True) \<longrightarrow> ev_response r = None)
       \<and> ((\<exists>a \<in> set (attendeesOf ev). at_self a = Some True) \<longrightarrow>
            (\<exists>pre a post. attendeesOf ev = pre @ a # post
               \<and> (\<forall>b \<in> set pre. at_self b \<noteq> Some True)
               \<and> at_self a = Some True
               \<and> ev_response r =
                   Some \<lparr>rs_status = map_option parseGoogleCalendarAttendeeStatus
                                       (at_responseStatus a),
                         rs_comment = at_comment a\<rparr>))"
proof -
  have tb: "truthyBool b \<longleftrightarrow> b = Some True" for b
    by (cases b) (simp_all add: truthyBool_def)
  have sa: "selfAttendee ev = find (\<lambda>a. at_self a = Some True) (attendeesOf ev)"
    by (simp add: selfAttendee_def attendeesOf_def tb split: option.splits)
  have r: "ev_response r = parseResponseStatus ev"
    using assms by (rule parseGoogleCalendarEvent_Inr)
  show ?thesis
  proof (cases "find (\<lambda>a. at_self a = Some True) (attendeesOf ev)")
    case None
    then have "\<forall>a \<in> set (attendeesOf ev). at_self a \<noteq> Some True"
      by (simp add: find_None_iff)
    moreover from None have "ev_response r = None"
      by (simp add: r parseResponseStatus_def sa)
    ultimately show ?thesis using None by auto
  next
    case (Some a)
    from find_Some_split [OF Some] obtain pre post where
      "attendeesOf ev = pre @ a # post" "at_self a = Some True"
      "\<forall>b \<in> set pre. at_self b \<noteq> Some True"
      by blast
    moreover from Some have "ev_response r =
        Some \<lparr>rs_status = map_option parseGoogleCalendarAttendeeStatus (at_responseStatus a),
              rs_comment = at_comment a\<rparr>"
      by (simp add: r parseResponseStatus_def sa parseOptionalAttendeeStatus_def)
    ultimately show ?thesis using Some by auto
  qed
qed

lemma allDayEvent_parsed:
  "\<exists>r. parseGoogleCalendarEvent textTemporal (\<lambda>u. None) exampleCalendar ''acct'' allDayEvent = Inr r"
  by (simp add: parseGoogleCalendarEvent_returns isAllDay_def startDateTime_def allDayEvent_def
      noEvent_def truthy_def parseDate_def textTemporal_def)

lemma timedEvent_parsed:
  "\<exists>r. parseGoogleCalendarEvent textTemporal (\<lambda>u. None) exampleCalendar ''acct'' timedEvent = Inr r"
  by (simp add: parseGoogleCalendarEvent_returns isAllDay_def startDateTime_def timedEvent_def
      noEvent_def truthy_def parseDateTime_def textTemporal_def)

theorem event_response_of_self_attendee_witness:
  "(\<exists>r. parseGoogleCalendarEvent textTemporal (\<lambda>u. None) exampleCalendar ''acct'' allDayEvent
           = Inr r
        \<and> ev_response r = Some \<lparr>rs_status = Some ''unknown'', rs_comment = Some ''late''\<rparr>)
   \<and> (\<exists>r. parseGoogleCalendarEvent textTemporal (\<lambda>u. None) exampleCalendar ''acct'' timedEvent
           = Inr r
        \<and> ev_response r = None)"
proof -
  obtain r1 where r1:
    "parseGoogleCalendarEvent textTemporal (\<lambda>u. None) exampleCalendar ''acct'' allDayEvent = Inr r1"
    using allDayEvent_parsed by blast
  obtain r2 where r2:
    "parseGoogleCalendarEvent textTemporal (\<lambda>u. None) exampleCalendar ''acct'' timedEvent = Inr r2"
    using timedEvent_parsed by blast
  have "ev_response r1 = Some \<lparr>rs_status = Some ''unknown'', rs_comment = Some ''late''\<rparr>"
    using event_response_of_self_attendee [OF r1]
    by (simp add: attendeesOf_def allDayEvent_def noEvent_def noAttendee_def
        parseGoogleCalendarAttendeeStatus_def)
  moreover have "ev_response r2 = None"
    using event_response_of_self_attendee [OF r2]
    by (simp add: attendeesOf_def timedEvent_def noEvent_def)
  ultimately show ?thesis using r1 r2 by blast
qed

lemma parseDate_Inr:
  "parseDate T x = Inr v \<longleftrightarrow>
     (\<exists>d date p. x = Some d \<and> gd_date d = Some date \<and> PlainDate_from T date = Some p
        \<and> v = PlainDate p)"
  by (auto simp: parseDate_def split: option.splits)

lemma parseDateTime_Inr:
  "parseDateTime T x = Inr v \<longleftrightarrow>
     (\<exists>d dateTime i. x = Some d \<and> gd_dateTime d = Some dateTime
        \<and> Instant_from T dateTime = Some i
        \<and> (if \<exists>tz. gd_timeZone d = Some tz \<and> tz \<noteq> []
            then \<exists>tz z. gd_timeZone d = Some tz \<and> toZonedDateTimeISO T i tz = Some z
                   \<and> v = ZonedDateTime z
            else v = Instant i))"
  by (auto simp: parseDateTime_def truthy_def split: option.splits)

lemma isAllDay_start:
  "isAllDay ev \<longleftrightarrow>
     \<not> (\<exists>start dateTime. ge_start ev = Some start \<and> gd_dateTime start = Some dateTime
            \<and> dateTime \<noteq> [])"
  by (auto simp: isAllDay_def startDateTime_def truthy_def split: option.splits)

text \<open>
  C3. An event whose start has no \<open>dateTime\<close> (none or an empty one: the source
  tests \<open>!event.start?.dateTime\<close>) is all-day and its start and end are parsed as
  plain dates, read from the \<open>date\<close> of each by \<open>Temporal.PlainDate.from\<close>; an
  event whose start has a \<open>dateTime\<close> is not all-day and its start and end are
  parsed from the \<open>dateTime\<close> of each by \<open>Temporal.Instant.from\<close>, as a zoned
  date-time where the field has a time zone that is not empty and as an instant where
  it has none. The event is returned exactly when both fields parse, and a field
  parses exactly when it has the property read and Temporal accepts it.
\<close>

theorem event_all_day_detection:
  "(parseGoogleCalendarEvent T detect cal acc ev = Inr r \<longrightarrow>
      (if \<exists>start dateTime. ge_start ev = Some start \<and> gd_dateTime start = Some dateTime
            \<and> dateTime \<noteq> []
       then \<not> ev_allDay r
            \<and> parseDateTime T (ge_start ev) = Inr (ev_start r)
            \<and> parseDateTime T (ge_end ev) = Inr (ev_end r)
       else ev_allDay r
            \<and> parseDate T (ge_start ev) = Inr (ev_start r)
            \<and> parseDate T (ge_end ev) = Inr (ev_end r)))
   \<and> ((\<exists>r'. parseGoogleCalendarEvent T detect cal acc ev = Inr r') \<longleftrightarrow>
        (if \<exists>start dateTime. ge_start ev = Some start \<and> gd_dateTime start = Some dateTime
              \<and> dateTime \<noteq> []
         then \<exists>s e. parseDateTime T (ge_start ev) = Inr s \<and> parseDateTime T (ge_end ev) = Inr e
         else \<exists>s e. parseDate T (ge_start ev) = Inr s \<and> parseDate T (ge_end ev) = Inr e))
   \<and> (parseDate T x = Inr v \<longleftrightarrow>
        (\<exists>d date p. x = Some d \<and> gd_date d = Some date \<and> PlainDate_from T date = Some p
           \<and> v = PlainDate p))
   \<and> (parseDateTime T y = Inr w \<longleftrightarrow>
        (\<exists>d dateTime i. y = Some d \<and> gd_dateTime d = Some dateTime
           \<and> Instant_from T dateTime = Some i
           \<and> (if \<exists>tz. gd_timeZone d = Some tz \<and> tz \<noteq> []
               then \<exists>tz z. gd_timeZone d = Some tz \<and> toZonedDateTimeISO T i tz = Some z
                      \<and> w = ZonedDateTime z
               else w = Instant i)))"
proof -
  let ?timed = "\<exists>start dateTime. ge_start ev = Some start \<and> gd_dateTime start = Some dateTime
                  \<and> dateTime \<noteq> []"
  have t: "isAllDay ev \<longleftrightarrow> \<not> ?timed" by (rule isAllDay_start)
  have 1: "parseGoogleCalendarEvent T detect cal acc ev = Inr r \<longrightarrow>
      (if ?timed
       then \<not> ev_allDay r
            \<and> parseDateTime T (ge_start ev) = Inr (ev_start r)
            \<and> parseDateTime T (ge_end ev) = Inr (ev_end r)
       else ev_allDay r
            \<and> parseDate T (ge_start ev) = Inr (ev_start r)
            \<and> parseDate T (ge_end ev) = Inr (ev_end r))"
  proof
    assume a: "parseGoogleCalendarEvent T detect cal acc ev = Inr r"
    show "if ?timed
       then \<not> ev_allDay r
            \<and> parseDateTime T (ge_start ev) = Inr (ev_start r)
            \<and> parseDateTime T (ge_end ev) = Inr (ev_end r)
       else ev_allDay r
            \<and> parseDate T (ge_start ev) = Inr (ev_start r)
            \<and> parseDate T (ge_end ev) = Inr (ev_end r)"
      using parseGoogleCalendarEvent_Inr(2-4) [OF a]
      by (cases ?timed) (simp_all only: t simp_thms if_True if_False)
  qed
  have 2: "(\<exists>r'. parseGoogleCalendarEvent T detect cal acc ev = Inr r') \<longleftrightarrow>
        (if ?timed
         then \<exists>s e. parseDateTime T (ge_start ev) = Inr s \<and> parseDateTime T (ge_end ev) = Inr e
         else \<exists>s e. parseDate T (ge_start ev) = Inr s \<and> parseDate T (ge_end ev) = Inr e)"
    unfolding parseGoogleCalendarEvent_returns
    by (cases ?timed) (simp_all only: t simp_thms if_True if_False)
  show ?thesis
    using 1 2 parseDate_Inr [of T x v] parseDateTime_Inr [of T y w] by blast
qed

lemma dateStartEvent_parsed:
  "\<exists>r. parseGoogleCalendarEvent textTemporal (\<lambda>u. None) exampleCalendar ''acct'' dateStartEvent
         = Inr r"
  by (simp add: parseGoogleCalendarEvent_returns isAllDay_def startDateTime_def
      dateStartEvent_def noEvent_def truthy_def parseDate_def textTemporal_def)

theorem event_all_day_detection_witness:
  "(\<exists>r. parseGoogleCalendarEvent textTemporal (\<lambda>u. None) exampleCalendar ''acct''
            dateStartEvent = Inr r
        \<and> ev_allDay r
        \<and> ev_start r = PlainDate ''2024-05-01''
        \<and> ev_end r = PlainDate ''2024-05-02'')
   \<and> (\<exists>r. parseGoogleCalendarEvent textTemporal (\<lambda>u. None) exampleCalendar ''acct'' timedEvent
           = Inr r
        \<and> \<not> ev_allDay r
        \<and> ev_start r = ZonedDateTime (''2024-05-01T09:00:00Z'', ''Europe/Paris'')
        \<and> ev_end r = Instant ''2024-05-01T10:00:00Z'')
   \<and> parseGoogleCalendarEvent textTemporal (\<lambda>u. None) exampleCalendar ''acct'' dateEndEvent
        = Inl TypeError"
proof -
  obtain r1 where r1:
    "parseGoogleCalendarEvent textTemporal (\<lambda>u. None) exampleCalendar ''acct'' dateStartEvent
       = Inr r1"
    using dateStartEvent_parsed by blast
  obtain r2 where r2:
    "parseGoogleCalendarEvent textTemporal (\<lambda>u. None) exampleCalendar ''acct'' timedEvent = Inr r2"
    using timedEvent_parsed by blast
  have s1: "parseDate textTemporal (ge_start dateStartEvent) = Inr (PlainDate ''2024-05-01'')"
    and e1: "parseDate textTemporal (ge_end dateStartEvent) = Inr (PlainDate ''2024-05-02'')"
    and n1: "\<not> (\<exists>start dateTime. ge_start dateStartEvent = Some start
                  \<and> gd_dateTime start = Some dateTime \<and> dateTime \<noteq> [])"
    by (simp_all add: parseDate_def dateStartEvent_def noEvent_def textTemporal_def)
  have s2: "parseDateTime textTemporal (ge_start timedEvent)
              = Inr (ZonedDateTime (''2024-05-01T09:00:00Z'', ''Europe/Paris''))"
    and e2: "parseDateTime textTemporal (ge_end timedEvent)
              = Inr (Instant ''2024-05-01T10:00:00Z'')"
    and n2: "\<exists>start dateTime. ge_start timedEvent = Some start
               \<and> gd_dateTime start = Some dateTime \<and> dateTime \<noteq> []"
    by (simp_all add: parseDateTime_def timedEvent_def noEvent_def textTemporal_def truthy_def)
  note t1 = event_all_day_detection [where T = textTemporal and ev = dateStartEvent and r = r1
        and detect = "\<lambda>u. None" and cal = exampleCalendar and acc = "''acct''"
        and x = "ge_start dateStartEvent" and v = "PlainDate ''2024-05-01''"
        and y = "ge_start timedEvent"
        and w = "ZonedDateTime (''2024-05-01T09:00:00Z'', ''Europe/Paris'')",
        THEN conjunct1, THEN mp, OF r1]
  note t2 = event_all_day_detection [where T = textTemporal and ev = timedEvent and r = r2
        and detect = "\<lambda>u. None" and cal = exampleCalendar and acc = "''acct''"
        and x = "ge_end dateStartEvent" and v = "PlainDate ''2024-05-02''"
        and y = "ge_end timedEvent" and w = "Instant ''2024-05-01T10:00:00Z''",
        THEN conjunct1, THEN mp, OF r2]
  have "ev_allDay r1 \<and> ev_start r1 = PlainDate ''2024-05-01''
          \<and> ev_end r1 = PlainDate ''2024-05-02''"
    using t1 s1 e1 by (simp only: n1 if_False) simp
  moreover have "\<not> ev_allDay r2
          \<and> ev_start r2 = ZonedDateTime (''2024-05-01T09:00:00Z'', ''Europe/Paris'')
          \<and> ev_end r2 = Instant ''2024-05-01T10:00:00Z''"
    using t2 s2 e2 by (simp only: n2 if_True) simp
  moreover have "parseGoogleCalendarEvent textTemporal (\<lambda>u. None) exampleCalendar ''acct''
                   dateEndEvent = Inl TypeError"
    by (simp add: parseGoogleCalendarEvent_def Let_def isAllDay_def startDateTime_def
        dateEndEvent_def noEvent_def truthy_def parseDateTime_def textTemporal_def)
  ultimately show ?thesis using r1 r2 by blast
qed

section \<open>The URL pattern and the tokens of the specification\<close>

lemma char_eq_code: "c = d \<longleftrightarrow> (of_char c :: nat) = of_char d"
  by simp

lemma isUrlChar_boundary: "isUrlChar c \<longleftrightarrow> \<not> urlBoundary c"
  unfolding isUrlChar_def urlBoundary_def
  by (simp add: char_eq_code [of c])

lemma isUrlChar_boundary': "isUrlChar = (\<lambda>c. \<not> urlBoundary c)"
  by (simp add: fun_eq_iff isUrlChar_boundary)

lemma of_char_toLowerChar:
  "(of_char (toLowerChar c) :: nat) =
     (if (65 \<le> (of_char c :: nat) \<and> (of_char c :: nat) \<le> 90)
         \<or> (192 \<le> (of_char c :: nat) \<and> (of_char c :: nat) \<le> 222 \<and> (of_char c :: nat) \<noteq> 215)
      then of_char c + 32 else of_char c)"
  by (auto simp: toLowerChar_def Let_def)

lemma lower_colon: "toLowerChar c = CHR '':'' \<longleftrightarrow> c = CHR '':''"
  by (simp add: char_eq_code [of _ "CHR '':''"] of_char_toLowerChar)

lemma lower_slash: "toLowerChar c = CHR ''/'' \<longleftrightarrow> c = CHR ''/''"
  by (simp add: char_eq_code [of _ "CHR ''/''"] of_char_toLowerChar)

lemma boundary_not_scheme_char:
  assumes "urlBoundary c"
  shows "toLowerChar c \<notin> set ''https://''"
proof -
  let ?n = "of_char c :: nat"
  from assms have n: "?n \<in> set [9, 10, 11, 12, 13, 32, 160,
                                  60, 62, 34, 39, 123, 125, 124, 92, 94, 96, 91, 93]"
    using isUrlChar_boundary [of c] by (simp only: isUrlChar_def) simp
  then have r: "?n < 58 \<or> (58 < ?n \<and> ?n < 65) \<or> (90 < ?n \<and> ?n < 97) \<or> 122 < ?n"
    and k: "\<not> (65 \<le> ?n \<and> ?n \<le> 90)" "\<not> (192 \<le> ?n \<and> ?n \<le> 222)" "?n \<noteq> 47"
    by auto
  from k have l: "(of_char (toLowerChar c) :: nat) = ?n"
    by (auto simp: of_char_toLowerChar)
  have "toLowerChar c \<noteq> d" if "(of_char d :: nat) \<in> {104, 116, 112, 115, 58, 47}" for d
  proof
    assume "toLowerChar c = d"
    then have "(of_char d :: nat) = ?n" using l by simp
    with that r k show False by auto
  qed
  then show ?thesis by simp
qed

lemma wordsOf_not_Nil: "wordsOf s \<noteq> []"
  by (induction s) (auto split: list.splits)

lemma wordsOf_unfold:
  "wordsOf s = takeWhile (\<lambda>c. \<not> urlBoundary c) s
                # (case dropWhile (\<lambda>c. \<not> urlBoundary c) s of [] \<Rightarrow> [] | b # r \<Rightarrow> wordsOf r)"
proof (induction s)
  case Nil
  then show ?case by simp
next
  case (Cons c cs)
  then show ?case by (cases "urlBoundary c") simp_all
qed


lemma take_takeWhile_all:
  "\<forall>c \<in> set (take k s). P c \<Longrightarrow> take k (takeWhile P s) = take k s"
proof (induction s arbitrary: k)
  case Nil
  then show ?case by simp
next
  case (Cons a s)
  then show ?case by (cases k) auto
qed

lemma take_takeWhile_length:
  "k \<le> length (takeWhile P s) \<Longrightarrow> take k (takeWhile P s) = take k s"
proof (induction s arbitrary: k)
  case Nil
  then show ?case by simp
next
  case (Cons a s)
  then show ?case by (cases k) (auto split: if_splits)
qed

lemma lower_scheme_nonboundary:
  assumes "toLowerCase xs = str" "set str \<subseteq> set ''https://''"
  shows "\<forall>c \<in> set xs. \<not> urlBoundary c"
proof
  fix c assume "c \<in> set xs"
  then have "toLowerChar c \<in> set str" using assms(1) by (auto simp: toLowerCase_def)
  with assms(2) have "toLowerChar c \<in> set ''https://''" by blast
  then show "\<not> urlBoundary c" using boundary_not_scheme_char by blast
qed

lemma lower_take_word:
  assumes "length str = k" "set str \<subseteq> set ''https://''"
  shows "toLowerCase (take k (takeWhile inUrl s)) = str \<longleftrightarrow> toLowerCase (take k s) = str"
proof
  assume a: "toLowerCase (take k (takeWhile inUrl s)) = str"
  then have "length (take k (takeWhile inUrl s)) = k"
    using assms(1) by (metis length_map toLowerCase_def)
  then have "k \<le> length (takeWhile inUrl s)" by simp
  then have "take k (takeWhile inUrl s) = take k s" by (rule take_takeWhile_length)
  with a show "toLowerCase (take k s) = str" by simp
next
  assume a: "toLowerCase (take k s) = str"
  from lower_scheme_nonboundary [OF a assms(2)]
  have "take k (takeWhile inUrl s) = take k s" by (rule take_takeWhile_all)
  with a show "toLowerCase (take k (takeWhile inUrl s)) = str" by simp
qed

lemma urlSchemeLength_word: "urlSchemeLength (takeWhile inUrl s) = urlSchemeLength s"
  unfolding urlSchemeLength_def
  using lower_take_word [of "''http://''" 7 s] lower_take_word [of "''https://''" 8 s]
  by simp

lemma urlSchemeLength_cases:
  "urlSchemeLength s = 0
   \<or> (urlSchemeLength s = 7 \<and> toLowerCase (take 7 s) = ''http://'')
   \<or> (urlSchemeLength s = 8 \<and> toLowerCase (take 8 s) = ''https://'')"
  by (simp add: urlSchemeLength_def)

lemma lower_length: "toLowerCase xs = str \<Longrightarrow> length xs = length str"
  by (auto simp: toLowerCase_def)

lemma urlSchemeLength_le: "urlSchemeLength s \<le> length (takeWhile inUrl s)"
proof -
  consider "urlSchemeLength s = 0"
    | "urlSchemeLength s = 7" "toLowerCase (take 7 s) = ''http://''"
    | "urlSchemeLength s = 8" "toLowerCase (take 8 s) = ''https://''"
    using urlSchemeLength_cases [of s] by auto
  then show ?thesis
  proof cases
    case 1
    then show ?thesis by simp
  next
    case 2
    then have "toLowerCase (take 7 (takeWhile inUrl s)) = ''http://''"
      using lower_take_word [of "''http://''" 7 s] by simp
    from lower_length [OF this] 2 show ?thesis by simp
  next
    case 3
    then have "toLowerCase (take 8 (takeWhile inUrl s)) = ''https://''"
      using lower_take_word [of "''https://''" 8 s] by simp
    from lower_length [OF this] 3 show ?thesis by simp
  qed
qed

lemma take_add_lower:
  "toLowerCase (take (m + n) s) = toLowerCase (take m s) @ toLowerCase (take n (drop m s))"
  by (simp add: toLowerCase_def take_add)

lemma lower_colon_slashes: "toLowerCase xs = ''://'' \<longleftrightarrow> xs = ''://''"
proof
  assume a: "toLowerCase xs = ''://''"
  then obtain a b c where xs: "xs = [a, b, c]"
    by (auto simp: toLowerCase_def map_eq_Cons_conv)
  with a show "xs = ''://''"
    by (simp add: toLowerCase_def lower_colon lower_slash)
next
  assume "xs = ''://''"
  then show "toLowerCase xs = ''://''"
    by (simp add: toLowerCase_def lower_colon lower_slash)
qed

lemma append_eq_sized:
  "length a = length a' \<Longrightarrow> a @ b = a' @ b' \<longleftrightarrow> a = a' \<and> b = b'"
  by simp

lemma scheme7:
  "toLowerCase (take 7 s) = ''http://''
     \<longleftrightarrow> toLowerCase (take 4 s) = ''http'' \<and> take 3 (drop 4 s) = ''://''"
proof
  assume a: "toLowerCase (take 7 s) = ''http://''"
  from lower_length [OF a] have "7 \<le> length s" by simp
  then have l: "length (toLowerCase (take 4 s)) = length ''http''"
    by (simp add: toLowerCase_def)
  from a have "toLowerCase (take 4 s) @ toLowerCase (take 3 (drop 4 s)) = ''http'' @ ''://''"
    using take_add_lower [of 4 3 s] by simp
  with l have "toLowerCase (take 4 s) = ''http'' \<and> toLowerCase (take 3 (drop 4 s)) = ''://''"
    by (simp only: append_eq_sized)
  then show "toLowerCase (take 4 s) = ''http'' \<and> take 3 (drop 4 s) = ''://''"
    by (simp add: lower_colon_slashes)
next
  assume "toLowerCase (take 4 s) = ''http'' \<and> take 3 (drop 4 s) = ''://''"
  then have "toLowerCase (take 4 s) = ''http''" "toLowerCase (take 3 (drop 4 s)) = ''://''"
    by (simp_all add: lower_colon_slashes)
  then show "toLowerCase (take 7 s) = ''http://''"
    using take_add_lower [of 4 3 s] by simp
qed

lemma scheme8:
  "toLowerCase (take 8 s) = ''https://''
     \<longleftrightarrow> toLowerCase (take 4 s) = ''http'' \<and> toLowerCase (take 1 (drop 4 s)) = ''s''
         \<and> take 3 (drop 5 s) = ''://''"
proof
  assume a: "toLowerCase (take 8 s) = ''https://''"
  from lower_length [OF a] have len: "8 \<le> length s" by simp
  then have l: "length (toLowerCase (take 4 s)) = length ''http''"
    and l': "length (toLowerCase (take 1 (drop 4 s))) = length ''s''"
    by (simp_all add: toLowerCase_def)
  from a have "toLowerCase (take 4 s) @ toLowerCase (take 4 (drop 4 s)) = ''http'' @ ''s://''"
    using take_add_lower [of 4 4 s] by simp
  with l have 1: "toLowerCase (take 4 s) = ''http''"
    and 2: "toLowerCase (take 4 (drop 4 s)) = ''s://''"
    by (simp_all only: append_eq_sized)
  from 2 have "toLowerCase (take 1 (drop 4 s)) @ toLowerCase (take 3 (drop 5 s)) = ''s'' @ ''://''"
    using take_add_lower [of 1 3 "drop 4 s"] by simp
  with l' have "toLowerCase (take 1 (drop 4 s)) = ''s''"
    and "toLowerCase (take 3 (drop 5 s)) = ''://''"
    by (simp_all only: append_eq_sized)
  with 1 show "toLowerCase (take 4 s) = ''http'' \<and> toLowerCase (take 1 (drop 4 s)) = ''s''
         \<and> take 3 (drop 5 s) = ''://''"
    by (simp add: lower_colon_slashes)
next
  assume "toLowerCase (take 4 s) = ''http'' \<and> toLowerCase (take 1 (drop 4 s)) = ''s''
         \<and> take 3 (drop 5 s) = ''://''"
  then have 1: "toLowerCase (take 4 s) = ''http''"
    and 2: "toLowerCase (take 1 (drop 4 s)) = ''s''"
    and 3: "toLowerCase (take 3 (drop 5 s)) = ''://''"
    by (simp_all add: lower_colon_slashes)
  from 2 3 have "toLowerCase (take 4 (drop 4 s)) = ''s://''"
    using take_add_lower [of 1 3 "drop 4 s"] by simp
  with 1 show "toLowerCase (take 8 s) = ''https://''"
    using take_add_lower [of 4 4 s] by simp
qed

lemma matchScheme_spec:
  "matchScheme s = (if urlSchemeLength s = 0 then None else Some (urlSchemeLength s))"
proof -
  have ex: "\<not> (toLowerCase (take 7 s) = ''http://'' \<and> toLowerCase (take 8 s) = ''https://'')"
  proof
    assume "toLowerCase (take 7 s) = ''http://'' \<and> toLowerCase (take 8 s) = ''https://''"
    then have "take 3 (drop 4 s) = ''://''" "toLowerCase (take 1 (drop 4 s)) = ''s''"
      by (simp_all add: scheme7 scheme8)
    moreover have "toLowerChar CHR '':'' = CHR '':''" by (simp add: lower_colon)
    ultimately show False by (cases "drop 4 s") (simp_all add: toLowerCase_def)
  qed
  show ?thesis
    using ex unfolding matchScheme_def urlSchemeLength_def scheme7 scheme8 by auto
qed


lemma takeWhile_scheme_body:
  assumes "\<forall>c \<in> set (take n s). P c"
  shows "takeWhile P s = take n s @ takeWhile P (drop n s)"
    and "dropWhile P s = dropWhile P (drop n s)"
proof -
  have s: "s = take n s @ drop n s" by simp
  show "takeWhile P s = take n s @ takeWhile P (drop n s)"
    by (subst s, subst takeWhile_append2) (use assms in auto)
  show "dropWhile P s = dropWhile P (drop n s)"
    by (subst s, subst dropWhile_append2) (use assms in auto)
qed

lemma scheme_chars_not_boundary:
  "\<forall>c \<in> set (take (urlSchemeLength s) s). \<not> urlBoundary c"
proof -
  consider "urlSchemeLength s = 0"
    | "urlSchemeLength s = 7" "toLowerCase (take 7 s) = ''http://''"
    | "urlSchemeLength s = 8" "toLowerCase (take 8 s) = ''https://''"
    using urlSchemeLength_cases [of s] by auto
  then show ?thesis
  proof cases
    case 1
    then show ?thesis by simp
  next
    case 2
    from lower_scheme_nonboundary [OF 2(2)] 2(1) show ?thesis by simp
  next
    case 3
    from lower_scheme_nonboundary [OF 3(2)] 3(1) show ?thesis by simp
  qed
qed

lemma matchUrlAt_spec:
  "matchUrlAt s =
     (if 0 < urlSchemeLength s \<and> urlSchemeLength s < length (takeWhile inUrl s)
      then Some (takeWhile inUrl s, dropWhile inUrl s) else None)"
proof (cases "urlSchemeLength s = 0")
  case True
  then show ?thesis by (simp add: matchUrlAt_def matchScheme_spec)
next
  case False
  let ?n = "urlSchemeLength s"
  let ?body = "takeWhile inUrl (drop ?n s)"
  note w = takeWhile_scheme_body [OF scheme_chars_not_boundary [of s]]
  have len: "?n \<le> length s"
    using urlSchemeLength_le [of s] length_takeWhile_le [of inUrl s] by linarith
  have l: "length (takeWhile inUrl s) = ?n + length ?body"
    using len by (simp add: w(1))
  have d: "drop (?n + length ?body) s = dropWhile inUrl s"
    unfolding l [symmetric] by (simp add: dropWhile_eq_drop)
  have b: "?body = [] \<longleftrightarrow> \<not> ?n < length (takeWhile inUrl s)"
    unfolding l by simp
  have m: "matchUrlAt s = (if ?body = [] then None else Some (take ?n s @ ?body, dropWhile inUrl s))"
    using False by (simp add: matchUrlAt_def matchScheme_spec Let_def isUrlChar_boundary' d)
  show ?thesis
    unfolding m b using False w(1) by simp
qed

lemma urlInWord_word:
  assumes "\<not> urlBoundary c"
  shows "urlInWord (takeWhile inUrl (c # cs)) =
     (if 0 < urlSchemeLength (c # cs)
         \<and> urlSchemeLength (c # cs) < length (takeWhile inUrl (c # cs))
      then Some (takeWhile inUrl (c # cs))
      else urlInWord (takeWhile inUrl cs))"
proof -
  have w: "takeWhile inUrl (c # cs) = c # takeWhile inUrl cs" using assms by simp
  have "urlSchemeLength (c # takeWhile inUrl cs) = urlSchemeLength (c # cs)"
    using urlSchemeLength_word [of "c # cs"] w by simp
  then show ?thesis unfolding w by simp
qed

lemma urlTokens_Nil: "urlTokens [] = []"
  by (simp add: urlTokens_def map_filter_simps)

lemma urlTokens_boundary: "urlBoundary b \<Longrightarrow> urlTokens (b # r) = urlTokens r"
  by (simp add: urlTokens_def map_filter_simps)

lemma urlTokens_no_match:
  assumes "\<not> urlBoundary c"
    and "\<not> (0 < urlSchemeLength (c # cs)
            \<and> urlSchemeLength (c # cs) < length (takeWhile inUrl (c # cs)))"
  shows "urlTokens (c # cs) = urlTokens cs"
proof -
  obtain ws where ws: "wordsOf cs = takeWhile inUrl cs # ws"
    using wordsOf_unfold [of cs] by blast
  have w: "takeWhile inUrl (c # cs) = c # takeWhile inUrl cs"
    using assms(1) by simp
  have "urlInWord (takeWhile inUrl (c # cs)) = urlInWord (takeWhile inUrl cs)"
    by (simp only: urlInWord_word [OF assms(1)] assms(2) if_False)
  then have u: "urlInWord (c # takeWhile inUrl cs) = urlInWord (takeWhile inUrl cs)"
    by (simp only: w)
  have "wordsOf (c # cs) = (c # takeWhile inUrl cs) # ws"
    using assms(1) by (simp add: ws)
  then have "urlTokens (c # cs) = List.map_filter urlInWord ((c # takeWhile inUrl cs) # ws)"
    by (simp only: urlTokens_def)
  also have "\<dots> = List.map_filter urlInWord (takeWhile inUrl cs # ws)"
    by (simp only: map_filter_simps u)
  also have "\<dots> = urlTokens cs"
    by (simp only: urlTokens_def ws)
  finally show ?thesis .
qed

lemma urlTokens_match:
  assumes "0 < urlSchemeLength s" "urlSchemeLength s < length (takeWhile inUrl s)"
  shows "urlTokens s = takeWhile inUrl s # urlTokens (dropWhile inUrl s)"
proof -
  from assms obtain c cs where s: "s = c # cs" and c: "\<not> urlBoundary c"
    by (cases s) (auto split: if_splits)
  have "urlInWord (takeWhile inUrl (c # cs)) = Some (takeWhile inUrl (c # cs))"
    using assms unfolding s by (simp only: urlInWord_word [OF c] simp_thms if_True)
  then have u: "urlInWord (takeWhile inUrl s) = Some (takeWhile inUrl s)"
    by (simp only: s)
  have r: "List.map_filter urlInWord
             (case dropWhile inUrl s of [] \<Rightarrow> [] | b # r \<Rightarrow> wordsOf r)
           = urlTokens (dropWhile inUrl s)"
  proof (cases "dropWhile inUrl s")
    case Nil
    show ?thesis unfolding Nil by (simp add: urlTokens_Nil map_filter_simps)
  next
    case (Cons b r)
    then have "urlBoundary b"
      using hd_dropWhile [of inUrl s] by auto
    then have "urlTokens (b # r) = urlTokens r"
      by (rule urlTokens_boundary)
    then have "urlTokens (b # r) = List.map_filter urlInWord (wordsOf r)"
      by (simp only: urlTokens_def [of r])
    then show ?thesis unfolding Cons by simp
  qed
  have "wordsOf s = takeWhile inUrl s # (case dropWhile inUrl s of [] \<Rightarrow> [] | b # r \<Rightarrow> wordsOf r)"
    by (rule wordsOf_unfold)
  then have "urlTokens s = List.map_filter urlInWord
          (takeWhile inUrl s # (case dropWhile inUrl s of [] \<Rightarrow> [] | b # r \<Rightarrow> wordsOf r))"
    by (simp only: urlTokens_def)
  also have "\<dots> = takeWhile inUrl s # urlTokens (dropWhile inUrl s)"
    by (simp only: map_filter_simps u r option.case)
  finally show ?thesis .
qed

lemma extractUrls_urlTokens: "extractUrls s = urlTokens s"
proof (induction s rule: extractUrls.induct)
  case (1 s)
  show ?case
  proof (cases "s = []")
    case True
    then show ?thesis by (simp add: extractUrls.simps urlTokens_Nil)
  next
    case ne: False
    show ?thesis
    proof (cases "0 < urlSchemeLength s \<and> urlSchemeLength s < length (takeWhile inUrl s)")
      case True
      then have m: "matchUrlAt s = Some (takeWhile inUrl s, dropWhile inUrl s)"
        by (simp add: matchUrlAt_spec)
      from "1.IH"(2) [OF ne m refl]
      have "extractUrls (dropWhile inUrl s) = urlTokens (dropWhile inUrl s)" .
      moreover have "extractUrls s = takeWhile inUrl s # extractUrls (dropWhile inUrl s)"
        using ne m by (subst extractUrls.simps) simp
      ultimately show ?thesis using True by (simp add: urlTokens_match)
    next
      case False
      then have m: "matchUrlAt s = None" by (simp add: matchUrlAt_spec)
      from "1.IH"(1) [OF ne m] have ih: "extractUrls (tl s) = urlTokens (tl s)" .
      have e: "extractUrls s = extractUrls (tl s)"
        using ne m by (subst extractUrls.simps) simp
      obtain c cs where s: "s = c # cs" using ne by (cases s) auto
      have "urlTokens s = urlTokens (tl s)"
      proof (cases "urlBoundary c")
        case True
        then show ?thesis using s by (simp add: urlTokens_boundary)
      next
        case nbc: False
        from urlTokens_no_match [OF nbc] False s show ?thesis by simp
      qed
      with e ih show ?thesis by simp
    qed
  qed
qed

section \<open>Properties of the fallback scan\<close>

lemma checkMeetingLink_service:
  "checkMeetingLink detect url = map_option serviceConference (detect url)"
  by (cases "detect url") (simp_all add: checkMeetingLink_def serviceConference_def)

lemma firstRecognized_Nil: "firstRecognized detect [] = None"
  by (simp add: firstRecognized_def)

lemma firstRecognized_Cons:
  "firstRecognized detect (url # urls) =
     (case checkMeetingLink detect url of
        Some service \<Rightarrow> Some service
      | None \<Rightarrow> firstRecognized detect urls)"
  by (cases "detect url") (simp_all add: firstRecognized_def checkMeetingLink_service)

lemma firstRecognized_append:
  "firstRecognized detect (xs @ ys) =
     (case firstRecognized detect xs of
        Some service \<Rightarrow> Some service
      | None \<Rightarrow> firstRecognized detect ys)"
proof (induction xs)
  case Nil
  then show ?case by (simp add: firstRecognized_Nil)
next
  case (Cons x xs)
  then show ?case
    by (cases "checkMeetingLink detect x") (simp_all add: firstRecognized_Cons)
qed

lemma checkUrls_firstRecognized: "checkUrls detect urls = firstRecognized detect urls"
proof (induction urls)
  case Nil
  then show ?case by (simp add: firstRecognized_Nil)
next
  case (Cons x xs)
  then show ?case
    by (cases "checkMeetingLink detect x") (simp_all add: firstRecognized_Cons)
qed

lemma checkLink_firstRecognized:
  "checkLink detect link = firstRecognized detect (linkCandidates link)"
proof (cases link)
  case None
  then show ?thesis by (simp add: checkLink_def linkCandidates_def firstRecognized_Nil)
next
  case (Some url)
  then show ?thesis
    by (cases "checkMeetingLink detect url")
       (simp_all add: checkLink_def linkCandidates_def firstRecognized_Nil firstRecognized_Cons)
qed

lemma checkText_firstRecognized:
  "checkText detect field = firstRecognized detect (textCandidates field)"
  by (cases field)
     (simp_all add: checkText_def textCandidates_def checkUrls_firstRecognized
        extractUrls_urlTokens urlTokens_Nil firstRecognized_Nil)

lemma checkAttachments_firstRecognized:
  "checkAttachments detect attachments =
     firstRecognized detect (concat (map (\<lambda>a. linkCandidates (att_fileUrl a)) attachments))"
proof (induction attachments)
  case Nil
  then show ?case by (simp add: firstRecognized_Nil)
next
  case (Cons a attachments)
  then show ?case
    by (cases "firstRecognized detect (linkCandidates (att_fileUrl a))")
       (simp_all add: checkLink_firstRecognized firstRecognized_append)
qed

lemma case_firstRecognized:
  "(case x of None \<Rightarrow> None | Some y \<Rightarrow> firstRecognized detect (f y)) =
     firstRecognized detect (case x of None \<Rightarrow> [] | Some y \<Rightarrow> f y)"
  by (cases x) (simp_all add: firstRecognized_Nil)

lemma fallback_firstRecognized:
  "parseGoogleCalendarConferenceFallback detect event =
     firstRecognized detect (fallbackCandidates event)"
  unfolding parseGoogleCalendarConferenceFallback_def fallbackCandidates_def
    checkLink_firstRecognized checkText_firstRecognized checkAttachments_firstRecognized
    case_firstRecognized firstRecognized_append
  by (simp split: option.splits)

lemma parse_without_entry_points:
  "structuredEntryPoints event = [] \<Longrightarrow>
     parseGoogleCalendarConferenceData detect event =
       parseGoogleCalendarConferenceFallback detect event"
  by (auto simp: structuredEntryPoints_def entryPointsOf_def
      parseGoogleCalendarConferenceData_def split: option.splits)

text \<open>
  C2. For an event with no structured entry points, the result is the conference of
  the first candidate the detector recognizes, the candidates being, in this order,
  the hangout link, every URL token of the description from left to right, every URL
  token of the location from left to right, the source URL, the file URLs of the
  attachments and the gadget link; the result is nothing when the detector recognizes
  none of them, and no candidate after the first one recognized has a part in it. A
  hangout link the detector recognizes gives the result whatever the description
  holds.
\<close>

theorem fallback_scan_priority:
  assumes "structuredEntryPoints event = []"
  shows "parseGoogleCalendarConferenceData detect event =
           (case find (\<lambda>url. detect url \<noteq> None) (fallbackCandidates event) of
              None \<Rightarrow> None
            | Some url \<Rightarrow> map_option serviceConference (detect url))
       \<and> (ge_hangoutLink event = Some link \<and> link \<noteq> [] \<and> detect link = Some service \<longrightarrow>
            parseGoogleCalendarConferenceData detect event =
              Some \<lparr>c_id = Some (ms_id service),
                    c_conferenceId = None,
                    c_name = Some (ms_name service),
                    c_video =
                      Some \<lparr>cep_joinUrl = \<lparr>ju_label = None, ju_value = ms_joinUrl service\<rparr>,
                            cep_meetingCode = Some (ms_id service),
                            cep_accessCode = None,
                            cep_password = None\<rparr>,
                    c_sip = None, c_phone = None, c_extra = None\<rparr>)"
proof -
  have eq: "parseGoogleCalendarConferenceData detect event =
              firstRecognized detect (fallbackCandidates event)"
    using assms by (simp add: parse_without_entry_points fallback_firstRecognized)
  have "parseGoogleCalendarConferenceData detect event = checkMeetingLink detect link"
    if "ge_hangoutLink event = Some link" "link \<noteq> []" "detect link = Some service"
    using that
    by (simp add: eq fallbackCandidates_def linkCandidates_def firstRecognized_Cons
        checkMeetingLink_def)
  then show ?thesis
    by (auto simp: eq firstRecognized_def checkMeetingLink_def)
qed

lemma linkedEvent_candidates:
  "fallbackCandidates linkedEvent =
     [''https://meet.google.com/abc-defg-hij'',
      ''http://example.org/agenda'', ''https://zoom.us/j/123'',
      ''HTTPS://zoom.us/j/456'',
      ''https://zoom.us/j/789'',
      ''https://drive.example/file'',
      ''https://meet.google.com/old-gadget'']"
  by code_simp

lemma linkedEvent_text_candidates:
  "fallbackCandidates (linkedEvent\<lparr>ge_hangoutLink := None\<rparr>) =
     [''http://example.org/agenda'', ''https://zoom.us/j/123'',
      ''HTTPS://zoom.us/j/456'',
      ''https://zoom.us/j/789'',
      ''https://drive.example/file'',
      ''https://meet.google.com/old-gadget'']"
  by code_simp

theorem fallback_scan_priority_witness:
  "structuredEntryPoints linkedEvent = []
   \<and> fallbackCandidates linkedEvent =
       [''https://meet.google.com/abc-defg-hij'',
        ''http://example.org/agenda'', ''https://zoom.us/j/123'',
        ''HTTPS://zoom.us/j/456'',
        ''https://zoom.us/j/789'',
        ''https://drive.example/file'',
        ''https://meet.google.com/old-gadget'']
   \<and> exampleDetector ''https://meet.google.com/abc-defg-hij''
        = Some \<lparr>ms_id = ''google-meet'', ms_name = ''Google Meet'',
                ms_joinUrl = ''https://meet.google.com/abc-defg-hij''\<rparr>
   \<and> exampleDetector ''http://example.org/agenda'' = None
   \<and> exampleDetector ''https://zoom.us/j/123''
        = Some \<lparr>ms_id = ''zoom'', ms_name = ''Zoom'', ms_joinUrl = ''https://zoom.us/j/123''\<rparr>
   \<and> parseGoogleCalendarConferenceData exampleDetector linkedEvent =
        Some \<lparr>c_id = Some ''google-meet'',
              c_conferenceId = None,
              c_name = Some ''Google Meet'',
              c_video =
                Some \<lparr>cep_joinUrl = \<lparr>ju_label = None,
                                      ju_value = ''https://meet.google.com/abc-defg-hij''\<rparr>,
                      cep_meetingCode = Some ''google-meet'',
                      cep_accessCode = None,
                      cep_password = None\<rparr>,
              c_sip = None, c_phone = None, c_extra = None\<rparr>
   \<and> parseGoogleCalendarConferenceData exampleDetector (linkedEvent\<lparr>ge_hangoutLink := None\<rparr>) =
        Some \<lparr>c_id = Some ''zoom'',
              c_conferenceId = None,
              c_name = Some ''Zoom'',
              c_video =
                Some \<lparr>cep_joinUrl = \<lparr>ju_label = None, ju_value = ''https://zoom.us/j/123''\<rparr>,
                      cep_meetingCode = Some ''zoom'',
                      cep_accessCode = None,
                      cep_password = None\<rparr>,
              c_sip = None, c_phone = None, c_extra = None\<rparr>"
proof -
  have h: "structuredEntryPoints linkedEvent = []"
    and h': "structuredEntryPoints (linkedEvent\<lparr>ge_hangoutLink := None\<rparr>) = []"
    by (simp_all add: structuredEntryPoints_def linkedEvent_def noEvent_def)
  have l: "ge_hangoutLink linkedEvent = Some ''https://meet.google.com/abc-defg-hij''"
    by (simp add: linkedEvent_def noEvent_def)
  have g: "exampleDetector ''https://meet.google.com/abc-defg-hij''
        = Some \<lparr>ms_id = ''google-meet'', ms_name = ''Google Meet'',
                ms_joinUrl = ''https://meet.google.com/abc-defg-hij''\<rparr>"
    and n: "exampleDetector ''http://example.org/agenda'' = None"
    and z: "exampleDetector ''https://zoom.us/j/123''
        = Some \<lparr>ms_id = ''zoom'', ms_name = ''Zoom'', ms_joinUrl = ''https://zoom.us/j/123''\<rparr>"
    by (simp_all add: exampleDetector_def)
  have 1: "parseGoogleCalendarConferenceData exampleDetector linkedEvent =
        Some \<lparr>c_id = Some ''google-meet'',
              c_conferenceId = None,
              c_name = Some ''Google Meet'',
              c_video =
                Some \<lparr>cep_joinUrl = \<lparr>ju_label = None,
                                      ju_value = ''https://meet.google.com/abc-defg-hij''\<rparr>,
                      cep_meetingCode = Some ''google-meet'',
                      cep_accessCode = None,
                      cep_password = None\<rparr>,
              c_sip = None, c_phone = None, c_extra = None\<rparr>"
  proof -
    let ?S = "\<lparr>ms_id = ''google-meet'', ms_name = ''Google Meet'',
               ms_joinUrl = ''https://meet.google.com/abc-defg-hij''\<rparr>"
    note t = fallback_scan_priority [OF h, of exampleDetector
        "''https://meet.google.com/abc-defg-hij''" ?S, THEN conjunct2, THEN mp]
    have "parseGoogleCalendarConferenceData exampleDetector linkedEvent =
            Some \<lparr>c_id = Some (ms_id ?S),
                  c_conferenceId = None,
                  c_name = Some (ms_name ?S),
                  c_video =
                    Some \<lparr>cep_joinUrl = \<lparr>ju_label = None, ju_value = ms_joinUrl ?S\<rparr>,
                          cep_meetingCode = Some (ms_id ?S),
                          cep_accessCode = None,
                          cep_password = None\<rparr>,
                  c_sip = None, c_phone = None, c_extra = None\<rparr>"
      by (rule t) (simp add: l g)
    then show ?thesis by simp
  qed
  have 2: "parseGoogleCalendarConferenceData exampleDetector (linkedEvent\<lparr>ge_hangoutLink := None\<rparr>) =
        Some \<lparr>c_id = Some ''zoom'',
              c_conferenceId = None,
              c_name = Some ''Zoom'',
              c_video =
                Some \<lparr>cep_joinUrl = \<lparr>ju_label = None, ju_value = ''https://zoom.us/j/123''\<rparr>,
                      cep_meetingCode = Some ''zoom'',
                      cep_accessCode = None,
                      cep_password = None\<rparr>,
              c_sip = None, c_phone = None, c_extra = None\<rparr>"
    using fallback_scan_priority [OF h', of exampleDetector, THEN conjunct1] n z
    by (simp add: linkedEvent_text_candidates serviceConference_def)
  from h linkedEvent_candidates g n z 1 2 show ?thesis by simp
qed

section \<open>Outbound mapping followed by inbound parsing\<close>

lemma find_map_none:
  "(\<And>x. x \<in> set xs \<Longrightarrow> \<not> P (f x)) \<Longrightarrow> find P (map f xs) = None"
  by (induction xs) simp_all

lemma find_append_cases:
  "find P (xs @ ys) = (case find P xs of Some x \<Rightarrow> Some x | None \<Rightarrow> find P ys)"
  by (induction xs) simp_all

lemma find_video_outbound:
  "find (\<lambda>e. ep_entryPointType e = Some ''video'') (outboundEntryPoints newURL c)
     = (case c_video c of
          None \<Rightarrow> None
        | Some v \<Rightarrow>
            if ju_value (cep_joinUrl v) = [] then None else Some (toVideoEntryPoint newURL v))"
proof -
  have p: "find (\<lambda>e. ep_entryPointType e = Some ''video'') (map toPhoneEntryPoint ps) = None"
    for ps
    by (rule find_map_none) (simp add: toPhoneEntryPoint_def)
  show ?thesis
    by (cases "c_video c"; cases "c_sip c"; cases "c_phone c")
       (simp_all add: outboundEntryPoints_def find_append_cases p toVideoEntryPoint_def
          toSipEntryPoint_def)
qed

lemma find_sip_outbound:
  "find (\<lambda>e. ep_entryPointType e = Some ''sip'') (outboundEntryPoints newURL c)
     = (case c_sip c of
          None \<Rightarrow> None
        | Some s \<Rightarrow>
            if ju_value (cep_joinUrl s) = [] then None else Some (toSipEntryPoint s))"
proof -
  have p: "find (\<lambda>e. ep_entryPointType e = Some ''sip'') (map toPhoneEntryPoint ps) = None"
    for ps
    by (rule find_map_none) (simp add: toPhoneEntryPoint_def)
  show ?thesis
    by (cases "c_video c"; cases "c_sip c"; cases "c_phone c")
       (simp_all add: outboundEntryPoints_def find_append_cases p toVideoEntryPoint_def
          toSipEntryPoint_def)
qed

lemma toPhoneUri_not_empty: "toPhoneUri v \<noteq> []"
  by (cases v) (simp_all add: toPhoneUri_def)

lemma filter_phone_uri_outbound:
  "filter (\<lambda>e. ep_entryPointType e = Some ''phone'' \<and> truthy (ep_uri e))
          (outboundEntryPoints newURL c)
     = map toPhoneEntryPoint (case c_phone c of None \<Rightarrow> [] | Some phone \<Rightarrow> phone)"
proof -
  let ?ps = "case c_phone c of None \<Rightarrow> [] | Some phone \<Rightarrow> phone"
  have "filter (\<lambda>e. ep_entryPointType e = Some ''phone'' \<and> truthy (ep_uri e))
          (outboundEntryPoints newURL c)
          = filter (\<lambda>e. truthy (ep_uri e))
              (filter (\<lambda>e. ep_entryPointType e = Some ''phone'') (outboundEntryPoints newURL c))"
    by (simp add: conj_commute)
  also have "\<dots> = filter (\<lambda>e. truthy (ep_uri e)) (map toPhoneEntryPoint ?ps)"
    by (simp only: filter_phone_outbound)
  also have "\<dots> = map toPhoneEntryPoint ?ps"
    by (induction ?ps) (simp_all add: toPhoneEntryPoint_def truthy_def toPhoneUri_not_empty)
  finally show ?thesis .
qed

lemma parse_of_outbound:
  assumes "outboundEntryPoints newURL c \<noteq> []"
  shows "parseGoogleCalendarConferenceData detect
           (event\<lparr>ge_conferenceData := Some (toGoogleCalendarConferenceData newURL String c)\<rparr>)
         = Some (parseStructuredConferenceData detect
                   (toGoogleCalendarConferenceData newURL String c)
                   (outboundEntryPoints newURL c))"
  using assms
  by (simp add: parseGoogleCalendarConferenceData_def toGoogleCalendarConferenceData_def
      Let_def)

text \<open>
  C1, amended. For a conference that gives at least one outbound entry point, parsing
  its outbound payload takes the structured branch, and the conference returned has
  \<^item> the video and the sip entry of the input whose join URL is not empty, each with the
    same join URL value, with the meeting code and the password of the input where
    these are not empty, and with the meeting code again as its access code (the
    access code of the input is not carried);
  \<^item> the phone entries of the input in their order, each with its join URL value under
    the \<open>tel:\<close> scheme, with the access code of the input where it is not empty, and
    with no meeting code and no password.
\<close>

theorem conference_round_trip:
  assumes "entryPointsOf (toGoogleCalendarConferenceData newURL String c) \<noteq> []"
  shows "\<exists>r. parseGoogleCalendarConferenceData detect
                (event\<lparr>ge_conferenceData :=
                          Some (toGoogleCalendarConferenceData newURL String c)\<rparr>) = Some r
     \<and> c_video r =
         (case c_video c of
            None \<Rightarrow> None
          | Some v \<Rightarrow>
              if ju_value (cep_joinUrl v) = [] then None
              else Some \<lparr>cep_joinUrl =
                           \<lparr>ju_label = Some (orElse (ju_label (cep_joinUrl v))
                                               (toJoinUrl newURL (ju_value (cep_joinUrl v)))),
                            ju_value = ju_value (cep_joinUrl v)\<rparr>,
                         cep_meetingCode = spreadIfTruthy (cep_meetingCode v),
                         cep_accessCode = spreadIfTruthy (cep_meetingCode v),
                         cep_password = spreadIfTruthy (cep_password v)\<rparr>)
     \<and> c_sip r =
         (case c_sip c of
            None \<Rightarrow> None
          | Some s \<Rightarrow>
              if ju_value (cep_joinUrl s) = [] then None
              else Some \<lparr>cep_joinUrl =
                           \<lparr>ju_label = ju_label (cep_joinUrl s),
                            ju_value = ju_value (cep_joinUrl s)\<rparr>,
                         cep_meetingCode = spreadIfTruthy (cep_meetingCode s),
                         cep_accessCode = spreadIfTruthy (cep_meetingCode s),
                         cep_password = spreadIfTruthy (cep_password s)\<rparr>)
     \<and> c_phone r =
         (case c_phone c of
            None \<Rightarrow> None
          | Some ps \<Rightarrow>
              if ps = [] then None
              else Some (map (\<lambda>p. \<lparr>cep_joinUrl =
                                      \<lparr>ju_label = Some (orElse (ju_label (cep_joinUrl p))
                                                          (ju_value (cep_joinUrl p))),
                                       ju_value = toPhoneUri (ju_value (cep_joinUrl p))\<rparr>,
                                    cep_meetingCode = None,
                                    cep_accessCode = spreadIfTruthy (cep_accessCode p),
                                    cep_password = None\<rparr>) ps))"
proof -
  let ?g = "toGoogleCalendarConferenceData newURL String c"
  let ?eps = "outboundEntryPoints newURL c"
  let ?r = "parseStructuredConferenceData detect ?g ?eps"
  from assms have ne: "?eps \<noteq> []" by (simp add: entryPointsOf_outbound)
  have v: "c_video ?r =
         (case c_video c of
            None \<Rightarrow> None
          | Some v \<Rightarrow>
              if ju_value (cep_joinUrl v) = [] then None
              else Some \<lparr>cep_joinUrl =
                           \<lparr>ju_label = Some (orElse (ju_label (cep_joinUrl v))
                                               (toJoinUrl newURL (ju_value (cep_joinUrl v)))),
                            ju_value = ju_value (cep_joinUrl v)\<rparr>,
                         cep_meetingCode = spreadIfTruthy (cep_meetingCode v),
                         cep_accessCode = spreadIfTruthy (cep_meetingCode v),
                         cep_password = spreadIfTruthy (cep_password v)\<rparr>)"
    by (cases "c_video c")
       (simp_all add: parseStructuredConferenceData_def Let_def find_video_outbound
          parseSingleEntryPoint_def toConferenceEntryPoint_def toVideoEntryPoint_def)
  have s: "c_sip ?r =
         (case c_sip c of
            None \<Rightarrow> None
          | Some s \<Rightarrow>
              if ju_value (cep_joinUrl s) = [] then None
              else Some \<lparr>cep_joinUrl =
                           \<lparr>ju_label = ju_label (cep_joinUrl s),
                            ju_value = ju_value (cep_joinUrl s)\<rparr>,
                         cep_meetingCode = spreadIfTruthy (cep_meetingCode s),
                         cep_accessCode = spreadIfTruthy (cep_meetingCode s),
                         cep_password = spreadIfTruthy (cep_password s)\<rparr>)"
    by (cases "c_sip c")
       (simp_all add: parseStructuredConferenceData_def Let_def find_sip_outbound
          parseSingleEntryPoint_def toConferenceEntryPoint_def toSipEntryPoint_def)
  have p: "c_phone ?r =
         (case c_phone c of
            None \<Rightarrow> None
          | Some ps \<Rightarrow>
              if ps = [] then None
              else Some (map (\<lambda>p. \<lparr>cep_joinUrl =
                                      \<lparr>ju_label = Some (orElse (ju_label (cep_joinUrl p))
                                                          (ju_value (cep_joinUrl p))),
                                       ju_value = toPhoneUri (ju_value (cep_joinUrl p))\<rparr>,
                                    cep_meetingCode = None,
                                    cep_accessCode = spreadIfTruthy (cep_accessCode p),
                                    cep_password = None\<rparr>) ps))"
    by (cases "c_phone c")
       (simp_all add: parseStructuredConferenceData_def Let_def filter_phone_uri_outbound
          parsePhoneEntryPoint_def toConferenceEntryPoint_def toPhoneEntryPoint_def)
  from parse_of_outbound [OF ne] v s p show ?thesis by blast
qed

lemma parse_of_outbound_without_entry_points:
  assumes "outboundEntryPoints newURL c = []"
  shows "parseGoogleCalendarConferenceData detect
           (event\<lparr>ge_conferenceData := Some (toGoogleCalendarConferenceData newURL String c)\<rparr>)
         = parseGoogleCalendarConferenceFallback detect
             (event\<lparr>ge_conferenceData :=
                       Some (toGoogleCalendarConferenceData newURL String c)\<rparr>)"
  using assms
  by (simp add: parseGoogleCalendarConferenceData_def toGoogleCalendarConferenceData_def
      Let_def)

text \<open>
  C1, as the claim states it, fails on the example conference: the input's video
  entry has the access code \<open>A1\<close> and comes back without an access code, and the
  input's phone entry has the join URL \<open>15551234567\<close>, a meeting code and a password,
  and comes back with the join URL \<open>tel:15551234567\<close> and neither of the two.
\<close>

theorem conference_round_trip_counterexample:
  "c_video exampleConference =
     Some \<lparr>cep_joinUrl = \<lparr>ju_label = None, ju_value = ''https://meet.example/x''\<rparr>,
           cep_meetingCode = None,
           cep_accessCode = Some ''A1'',
           cep_password = Some ''secret''\<rparr>
   \<and> c_phone exampleConference =
     Some [\<lparr>cep_joinUrl = \<lparr>ju_label = None, ju_value = ''15551234567''\<rparr>,
            cep_meetingCode = Some ''M2'',
            cep_accessCode = Some ''4321'',
            cep_password = Some ''P3''\<rparr>]
   \<and> parseGoogleCalendarConferenceData (\<lambda>u. None)
        (noEvent\<lparr>ge_conferenceData :=
                    Some (toGoogleCalendarConferenceData (\<lambda>u. None) (\<lambda>v. [])
                            exampleConference)\<rparr>) =
     Some \<lparr>c_id = None,
           c_conferenceId = None,
           c_name = Some ''Google Meet'',
           c_video =
             Some \<lparr>cep_joinUrl = \<lparr>ju_label = Some ''https://meet.example/x'',
                                   ju_value = ''https://meet.example/x''\<rparr>,
                   cep_meetingCode = None,
                   cep_accessCode = None,
                   cep_password = Some ''secret''\<rparr>,
           c_sip = None,
           c_phone =
             Some [\<lparr>cep_joinUrl = \<lparr>ju_label = Some ''15551234567'',
                                    ju_value = ''tel:15551234567''\<rparr>,
                    cep_meetingCode = None,
                    cep_accessCode = Some ''4321'',
                    cep_password = None\<rparr>],
           c_extra = None\<rparr>"
proof -
  have ne: "outboundEntryPoints (\<lambda>u. None) exampleConference \<noteq> []"
    using exampleConference_outbound by (simp add: entryPointsOf_outbound)
  have eps: "outboundEntryPoints (\<lambda>u. None) exampleConference
     = [\<lparr>ep_entryPointType = Some ''video'', ep_uri = Some ''https://meet.example/x'',
         ep_label = Some ''https://meet.example/x'', ep_meetingCode = None,
         ep_accessCode = None, ep_password = Some ''secret'',
         ep_passcode = Some ''secret'', ep_pin = None\<rparr>,
        \<lparr>ep_entryPointType = Some ''phone'', ep_uri = Some ''tel:15551234567'',
         ep_label = Some ''15551234567'', ep_meetingCode = None,
         ep_accessCode = Some ''4321'', ep_password = None,
         ep_passcode = None, ep_pin = Some ''4321''\<rparr>]"
    using exampleConference_outbound by (simp add: entryPointsOf_outbound)
  show ?thesis
    unfolding parse_of_outbound [OF ne] eps
    by (simp add: exampleConference_def noConference_def parseStructuredConferenceData_def
        Let_def parseSingleEntryPoint_def toConferenceEntryPoint_def parsePhoneEntryPoint_def
        truthy_def toGoogleCalendarConferenceData_def)
qed

theorem conference_round_trip_witness:
  "entryPointsOf (toGoogleCalendarConferenceData (\<lambda>u. None) (\<lambda>v. []) exampleConference) \<noteq> []
   \<and> (\<exists>r. parseGoogleCalendarConferenceData (\<lambda>u. None)
              (noEvent\<lparr>ge_conferenceData :=
                          Some (toGoogleCalendarConferenceData (\<lambda>u. None) (\<lambda>v. [])
                                  exampleConference)\<rparr>) = Some r
          \<and> c_video r =
              Some \<lparr>cep_joinUrl = \<lparr>ju_label = Some ''https://meet.example/x'',
                                    ju_value = ''https://meet.example/x''\<rparr>,
                    cep_meetingCode = None,
                    cep_accessCode = None,
                    cep_password = Some ''secret''\<rparr>
          \<and> c_sip r = None
          \<and> c_phone r =
              Some [\<lparr>cep_joinUrl = \<lparr>ju_label = Some ''15551234567'',
                                     ju_value = ''tel:15551234567''\<rparr>,
                     cep_meetingCode = None,
                     cep_accessCode = Some ''4321'',
                     cep_password = None\<rparr>])"
proof -
  have h: "entryPointsOf
             (toGoogleCalendarConferenceData (\<lambda>u. None) (\<lambda>v. []) exampleConference) \<noteq> []"
    by (simp add: exampleConference_outbound)
  from conference_round_trip [OF h, of "\<lambda>u. None" noEvent] h
  show ?thesis
    by (simp add: exampleConference_def noConference_def toJoinUrl_def orElse_def
        spreadIfTruthy_def truthy_def toPhoneUri_def)
qed

end
